theory Spec2Isabelle
  imports Complex_Main "HOL-Library.Word"
begin

section \<open>Wanderlight: the page script\<close>

text \<open>
  The script of the Wanderlight site (\<^verbatim>\<open>script.js\<close>) is a collection of
  event handlers over the document. Each handler is embedded as a function from the part
  of the page it reads to the part it writes. The conventions:
  \<^item> an element is a record of what the script reads or writes on it; a
    \<^verbatim>\<open>classList\<close> is a set of class names;
  \<^item> an element that \<^verbatim>\<open>getElementById\<close> or \<^verbatim>\<open>querySelector\<close>
    may fail to find is an \<open>option\<close>, and a property access on \<^verbatim>\<open>null\<close>
    is the error \<open>TypeError\<close>;
  \<^item> a scroll offset and the time of a timer are \<open>real\<close>, the integer layout metrics
    (\<^verbatim>\<open>offsetTop\<close>, \<^verbatim>\<open>offsetHeight\<close>) are \<open>int\<close>; the numbers of the
    statistics counter, whose arithmetic is in doubles, have a model of their own;
  \<^item> a JavaScript string whose content is matched by a regular expression is a list of
    UTF-16 code units (\<open>16 word\<close>); class names, attribute names and identifiers
    are \<open>string\<close>.
\<close>

subsection \<open>Elements and class lists\<close>

datatype error = TypeError

record element =
  classList :: "string set"
  attributes :: "string \<Rightarrow> string option"
  textContent :: string

definition classList_add :: "string \<Rightarrow> 'a element_scheme \<Rightarrow> 'a element_scheme" where
  "classList_add c el = el\<lparr>classList := insert c (classList el)\<rparr>"

definition classList_remove :: "string \<Rightarrow> 'a element_scheme \<Rightarrow> 'a element_scheme" where
  "classList_remove c el = el\<lparr>classList := classList el - {c}\<rparr>"

definition classList_contains :: "string \<Rightarrow> 'a element_scheme \<Rightarrow> bool" where
  "classList_contains c el = (c \<in> classList el)"

text \<open>
  \<^verbatim>\<open>classList.toggle(c)\<close> flips the class and returns whether it is now present;
  \<^verbatim>\<open>classList.toggle(c, force)\<close> adds the class when \<open>force\<close> holds and
  removes it otherwise.
\<close>

definition classList_toggle :: "string \<Rightarrow> 'a element_scheme \<Rightarrow> bool \<times> 'a element_scheme" where
  "classList_toggle c el =
     (if c \<in> classList el then (False, classList_remove c el) else (True, classList_add c el))"

definition classList_toggle_force :: "string \<Rightarrow> bool \<Rightarrow> 'a element_scheme \<Rightarrow> 'a element_scheme" where
  "classList_toggle_force c force el = (if force then classList_add c el else classList_remove c el)"

definition setAttribute :: "string \<Rightarrow> string \<Rightarrow> 'a element_scheme \<Rightarrow> 'a element_scheme" where
  "setAttribute k v el = el\<lparr>attributes := (attributes el)(k \<mapsto> v)\<rparr>"

subsection \<open>Configuration\<close>

record config_t =
  scrollThreshold :: int
  animationDuration :: int
  countAnimationDuration :: int
  intersectionThreshold :: real

definition config :: config_t where
  "config = \<lparr>scrollThreshold = 100, animationDuration = 600,
             countAnimationDuration = 2000, intersectionThreshold = 1 / 10\<rparr>"

subsection \<open>Header scroll effect\<close>

text \<open>
  \<^verbatim>\<open>handleHeaderScroll\<close> reads \<^verbatim>\<open>window.scrollY\<close> and
  \<^verbatim>\<open>elements.header\<close>. The function has no guard on the header: when the
  document has no element with id \<^verbatim>\<open>header\<close> the access to its class list
  throws.
\<close>

definition handleHeaderScroll :: "real \<Rightarrow> element option \<Rightarrow> error + element" where
  "handleHeaderScroll scrollY header =
     (case header of
        None \<Rightarrow> Inl TypeError
      | Some h \<Rightarrow>
          if scrollY > of_int (scrollThreshold config)
          then Inr (classList_add ''scrolled'' h)
          else Inr (classList_remove ''scrolled'' h))"

subsection \<open>Mobile navigation\<close>

text \<open>
  The part of the page the menu controller touches: the menu, its toggle button and the
  document body. \<^verbatim>\<open>elements.navMenu\<close> and \<^verbatim>\<open>elements.navToggle\<close>
  are \<open>None\<close> when the document has no element with that id.
\<close>

record menu_page =
  navMenu :: "element option"
  navToggle :: "element option"
  body :: element

text \<open>
  \<^verbatim>\<open>setAttribute('aria-expanded', isOpen)\<close> stores the boolean as the string
  \<^verbatim>\<open>true\<close> or \<^verbatim>\<open>false\<close>. An exception ends the handler; the model
  does not keep the page a failed handler leaves behind.
\<close>

definition toggleMobileMenu :: "menu_page \<Rightarrow> error + menu_page" where
  "toggleMobileMenu p =
     (case navMenu p of
        None \<Rightarrow> Inl TypeError
      | Some m \<Rightarrow>
          (case classList_toggle ''open'' m of
             (isOpen, m') \<Rightarrow>
               (case navToggle p of
                  None \<Rightarrow> Inl TypeError
                | Some t \<Rightarrow>
                    Inr (p\<lparr>navMenu := Some m',
                           navToggle := Some (setAttribute ''aria-expanded''
                                               (if isOpen then ''true'' else ''false'') t),
                           body := classList_toggle_force ''menu-open'' isOpen (body p)\<rparr>))))"

definition closeMobileMenu :: "menu_page \<Rightarrow> error + menu_page" where
  "closeMobileMenu p =
     (case navMenu p of
        None \<Rightarrow> Inl TypeError
      | Some m \<Rightarrow>
          (case navToggle p of
             None \<Rightarrow> Inl TypeError
           | Some t \<Rightarrow>
               Inr (p\<lparr>navMenu := Some (classList_remove ''open'' m),
                      navToggle := Some (setAttribute ''aria-expanded'' ''false'' t),
                      body := classList_remove ''menu-open'' (body p)\<rparr>)))"

text \<open>
  \<^verbatim>\<open>initMobileNav\<close> returns before it registers any listener when the toggle
  or the menu is missing.
\<close>

definition initMobileNav_registers :: "menu_page \<Rightarrow> bool" where
  "initMobileNav_registers p = (\<not> (navToggle p = None \<or> navMenu p = None))"

text \<open>
  The \<^verbatim>\<open>keydown\<close> listener on the document. The test of the key comes first
  and \<^verbatim>\<open>&&\<close> is short-circuit, so the menu is read for the Escape key only.
\<close>

definition keydownListener :: "string \<Rightarrow> menu_page \<Rightarrow> error + menu_page" where
  "keydownListener key p =
     (if key = ''Escape'' then
        (case navMenu p of
           None \<Rightarrow> Inl TypeError
         | Some m \<Rightarrow> if classList_contains ''open'' m then closeMobileMenu p else Inr p)
      else Inr p)"

text \<open>
  The \<^verbatim>\<open>click\<close> listener on the document; \<open>inMenu\<close> and \<open>inToggle\<close>
  say whether the click target lies inside the menu and inside the toggle.
\<close>

definition documentClickListener :: "bool \<Rightarrow> bool \<Rightarrow> menu_page \<Rightarrow> error + menu_page" where
  "documentClickListener inMenu inToggle p =
     (case navMenu p of
        None \<Rightarrow> Inl TypeError
      | Some m \<Rightarrow>
          if classList_contains ''open'' m \<and> \<not> inMenu \<and> \<not> inToggle
          then closeMobileMenu p else Inr p)"

text \<open>A key press on the page: the listener runs only if it was registered.\<close>

definition document_keydown :: "string \<Rightarrow> menu_page \<Rightarrow> error + menu_page" where
  "document_keydown key p = (if initMobileNav_registers p then keydownListener key p else Inr p)"

text \<open>
  The closed state in the words of the specification: no \<^verbatim>\<open>open\<close> class on the
  menu, \<^verbatim>\<open>aria-expanded\<close> equal to \<^verbatim>\<open>false\<close> on the toggle, no
  scroll-lock class on the body.
\<close>

definition menu_closed :: "menu_page \<Rightarrow> bool" where
  "menu_closed p =
     (case navMenu p of
        None \<Rightarrow> False
      | Some m \<Rightarrow>
          (case navToggle p of
             None \<Rightarrow> False
           | Some t \<Rightarrow>
               \<not> classList_contains ''open'' m
               \<and> attributes t ''aria-expanded'' = Some ''false''
               \<and> \<not> classList_contains ''menu-open'' (body p)))"

definition menu_has_open :: "menu_page \<Rightarrow> bool" where
  "menu_has_open p = (case navMenu p of None \<Rightarrow> False | Some m \<Rightarrow> classList_contains ''open'' m)"

definition menu_page_example :: menu_page where
  "menu_page_example =
     \<lparr>navMenu = Some \<lparr>classList = {''nav__menu''}, attributes = Map.empty, textContent = ''''\<rparr>,
      navToggle = Some \<lparr>classList = {''nav__toggle''},
                        attributes = [''aria-expanded'' \<mapsto> ''false''], textContent = ''''\<rparr>,
      body = \<lparr>classList = {}, attributes = Map.empty, textContent = ''''\<rparr>\<rparr>"

subsection \<open>Active navigation link\<close>

text \<open>
  A navigation link is an element with an \<^verbatim>\<open>href\<close>; a section is read for its
  \<^verbatim>\<open>id\<close>, \<^verbatim>\<open>offsetTop\<close> and \<^verbatim>\<open>offsetHeight\<close>. The page holds
  \<^verbatim>\<open>elements.navLinks\<close> (every element of class \<^verbatim>\<open>nav__link\<close>, in
  document order), the sections with an id in document order, and the header's
  \<^verbatim>\<open>offsetHeight\<close> (\<open>None\<close> when the page has no header). The document's structure
  does not change while the script runs, so the links that
  \<^verbatim>\<open>document.querySelector\<close> searches are those of \<^verbatim>\<open>elements.navLinks\<close>.
\<close>

record nav_link = element +
  href :: string

record section_el =
  section_id :: string
  offsetTop :: int
  offsetHeight :: int

record nav_page =
  header_offsetHeight :: "int option"
  navLinks :: "nav_link list"
  sections :: "section_el list"

text \<open>
  \<^verbatim>\<open>document.querySelector\<close> on a list of candidates in document order: the
  position of the first one that matches, if any.
\<close>

fun querySelector_index :: "('a \<Rightarrow> bool) \<Rightarrow> 'a list \<Rightarrow> nat option" where
  "querySelector_index P [] = None"
| "querySelector_index P (x # xs) =
     (if P x then Some 0 else map_option Suc (querySelector_index P xs))"

text \<open>
  The selector \<^verbatim>\<open>.nav__link[href="#${sectionId}"]\<close>: the first navigation link
  whose \<^verbatim>\<open>href\<close> attribute is \<^verbatim>\<open>#\<close> followed by the id. (Ids are taken
  to be free of the characters that end or escape a CSS string: a quote, a backslash, a
  line break.)
\<close>

definition navLink_of :: "string \<Rightarrow> nav_link list \<Rightarrow> nat option" where
  "navLink_of sectionId links = querySelector_index (\<lambda>l. href l = CHR ''#'' # sectionId) links"

text \<open>
  Lines 178 and 179: every link loses \<^verbatim>\<open>active\<close>, then the section's link
  gets it.
\<close>

definition set_active :: "nat \<Rightarrow> nav_link list \<Rightarrow> nav_link list" where
  "set_active i links =
     (let cleared = map (classList_remove ''active'') links
      in cleared[i := classList_add ''active'' (cleared ! i)])"

text \<open>The test of line 177, with \<open>sectionTop\<close> as line 172 computes it.\<close>

definition in_span :: "int \<Rightarrow> real \<Rightarrow> section_el \<Rightarrow> bool" where
  "in_span headerHeight scrollY s =
     (let sectionHeight = offsetHeight s;
          sectionTop = offsetTop s - headerHeight - 100
      in scrollY > of_int sectionTop \<and> scrollY \<le> of_int (sectionTop + sectionHeight))"

text \<open>The body of the \<^verbatim>\<open>forEach\<close> over the sections, lines 170 to 182.\<close>

definition updateActiveLink_section ::
  "int \<Rightarrow> real \<Rightarrow> nav_link list \<Rightarrow> section_el \<Rightarrow> nav_link list" where
  "updateActiveLink_section headerHeight scrollY links s =
     (case navLink_of (section_id s) links of
        None \<Rightarrow> links
      | Some i \<Rightarrow> if in_span headerHeight scrollY s then set_active i links else links)"

text \<open>
  \<^verbatim>\<open>updateActiveLink\<close> at the scroll offset \<open>scrollY\<close>. The header is read in
  every iteration, so a page without a header throws as soon as there is a section.
\<close>

definition updateActiveLink :: "nav_page \<Rightarrow> real \<Rightarrow> error + nav_link list" where
  "updateActiveLink p scrollY =
     (case sections p of
        [] \<Rightarrow> Inr (navLinks p)
      | _ # _ \<Rightarrow>
          (case header_offsetHeight p of
             None \<Rightarrow> Inl TypeError
           | Some headerHeight \<Rightarrow>
               Inr (foldl (updateActiveLink_section headerHeight scrollY) (navLinks p) (sections p))))"

text \<open>The positions of the links that carry \<^verbatim>\<open>active\<close>.\<close>

definition active_links :: "nav_link list \<Rightarrow> nat list" where
  "active_links links = filter (\<lambda>i. classList_contains ''active'' (links ! i)) [0..<length links]"

text \<open>
  The sections that have a navigation link and whose span, as line 177 tests it, contains
  the offset.
\<close>

definition matching_sections :: "nav_page \<Rightarrow> int \<Rightarrow> real \<Rightarrow> section_el list" where
  "matching_sections p headerHeight scrollY =
     filter (\<lambda>s. navLink_of (section_id s) (navLinks p) \<noteq> None \<and> in_span headerHeight scrollY s)
       (sections p)"

text \<open>
  The span in the other reading of the specification's words, from the adjusted top to
  the section's own top plus its height.
\<close>

definition in_span_spec :: "int \<Rightarrow> real \<Rightarrow> section_el \<Rightarrow> bool" where
  "in_span_spec headerHeight scrollY s =
     (scrollY > of_int (offsetTop s - headerHeight - 100)
      \<and> scrollY \<le> of_int (offsetTop s + offsetHeight s))"

definition link_example :: "string \<Rightarrow> string set \<Rightarrow> nav_link" where
  "link_example h cs = \<lparr>classList = cs, attributes = Map.empty, textContent = '''', href = h\<rparr>"

text \<open>
  A page with two sections, each 500 pixels high, below a header of 80 pixels; the link
  of the first section is active.
\<close>

definition nav_page_example :: nav_page where
  "nav_page_example =
     \<lparr>header_offsetHeight = Some 80,
      navLinks = [link_example ''#home'' {''nav__link'', ''active''},
                  link_example ''#services'' {''nav__link''}],
      sections = [\<lparr>section_id = ''home'', offsetTop = 1000, offsetHeight = 500\<rparr>,
                  \<lparr>section_id = ''services'', offsetTop = 1500, offsetHeight = 500\<rparr>]\<rparr>"

subsection \<open>Scroll reveal\<close>

text \<open>
  Elements are named by numbers and the document maps a name to the element's state. An
  \<^verbatim>\<open>IntersectionObserver\<close> is the set of targets it observes; the browser calls
  its callback with a list of entries, each naming a target and saying whether the target
  intersects the root under the observer's options. Whether it does is the browser's
  decision: the script only passes the options.
\<close>

type_synonym node = nat

record observer_options =
  threshold :: real
  rootMargin :: string

record entry =
  entry_target :: node
  isIntersecting :: bool

record reveal_page =
  els :: "node \<Rightarrow> element"
  observed :: "node set"

definition reveal_options :: observer_options where
  "reveal_options =
     \<lparr>threshold = intersectionThreshold config, rootMargin = ''0px 0px -50px 0px''\<rparr>"

text \<open>The body of the callback's \<^verbatim>\<open>forEach\<close>, lines 238 to 241.\<close>

definition reveal_entry :: "reveal_page \<Rightarrow> entry \<Rightarrow> reveal_page" where
  "reveal_entry s en =
     (if isIntersecting en
      then s\<lparr>els := (els s)(entry_target en := classList_add ''visible'' (els s (entry_target en))),
             observed := observed s - {entry_target en}\<rparr>
      else s)"

definition reveal_callback :: "reveal_page \<Rightarrow> entry list \<Rightarrow> reveal_page" where
  "reveal_callback s entries = foldl reveal_entry s entries"

text \<open>
  \<^verbatim>\<open>initScrollReveal\<close> on the elements \<open>revealElements\<close> of the document
  \<open>doc\<close>: each gets the class \<^verbatim>\<open>reveal\<close>, then each is observed.
\<close>

definition mark_reveal :: "(node \<Rightarrow> element) \<Rightarrow> node \<Rightarrow> (node \<Rightarrow> element)" where
  "mark_reveal d el = d(el := classList_add ''reveal'' (d el))"

definition observe :: "node set \<Rightarrow> node \<Rightarrow> node set" where
  "observe obs el = insert el obs"

definition initScrollReveal :: "node list \<Rightarrow> (node \<Rightarrow> element) \<Rightarrow> reveal_page" where
  "initScrollReveal revealElements doc =
     \<lparr>els = foldl mark_reveal doc revealElements,
      observed = foldl observe {} revealElements\<rparr>"

text \<open>The page after the browser has called the callback with each batch in turn.\<close>

definition reveal_run :: "reveal_page \<Rightarrow> entry list list \<Rightarrow> reveal_page" where
  "reveal_run s batches = foldl reveal_callback s batches"

text \<open>The targets that some delivered entry reported as intersecting.\<close>

definition triggered :: "entry list list \<Rightarrow> node set" where
  "triggered batches = set (map entry_target (filter isIntersecting (concat batches)))"

definition blank_element :: element where
  "blank_element = \<lparr>classList = {}, attributes = Map.empty, textContent = ''''\<rparr>"

subsection \<open>Debounce\<close>

text \<open>
  \<^verbatim>\<open>debounce(func, wait)\<close> returns a closure over the variable
  \<^verbatim>\<open>timeout\<close>. The state of one such closure: the timers it has set that are
  still pending in the browser, the next timer id the browser hands out, the variable
  \<^verbatim>\<open>timeout\<close> (\<open>None\<close> while undefined), and the invocations of
  \<^verbatim>\<open>func\<close> so far, each with its time and its arguments. A pending timer carries
  the arguments its callback \<^verbatim>\<open>later\<close> has captured. Time is in milliseconds.
\<close>

record 'a timer =
  timer_id :: nat
  due :: real
  timer_args :: 'a

record 'a debounced =
  timers :: "'a timer list"
  next_id :: nat
  timeout :: "nat option"
  invocations :: "(real \<times> 'a) list"

text \<open>
  \<^verbatim>\<open>clearTimeout\<close> removes the timer with the given id; it does nothing for
  \<^verbatim>\<open>undefined\<close> and for the id of a timer that is no longer pending.
  \<^verbatim>\<open>setTimeout\<close> registers a timer under a fresh id; a negative delay counts
  as zero.
\<close>

definition clearTimeout :: "nat option \<Rightarrow> 'a debounced \<Rightarrow> 'a debounced" where
  "clearTimeout h st =
     (case h of
        None \<Rightarrow> st
      | Some i \<Rightarrow> st\<lparr>timers := filter (\<lambda>u. timer_id u \<noteq> i) (timers st)\<rparr>)"

definition setTimeout :: "'a \<Rightarrow> real \<Rightarrow> real \<Rightarrow> 'a debounced \<Rightarrow> nat \<times> 'a debounced" where
  "setTimeout a delay now st =
     (next_id st,
      st\<lparr>timers := timers st @ [\<lparr>timer_id = next_id st, due = now + max 0 delay, timer_args = a\<rparr>],
         next_id := Suc (next_id st)\<rparr>)"

text \<open>The callback \<^verbatim>\<open>later\<close> of a call with arguments \<open>a\<close>, run at time \<open>now\<close>.\<close>

definition later :: "real \<Rightarrow> 'a \<Rightarrow> 'a debounced \<Rightarrow> 'a debounced" where
  "later now a st =
     (let st' = clearTimeout (timeout st) st
      in st'\<lparr>invocations := invocations st' @ [(now, a)]\<rparr>)"

text \<open>The wrapper \<^verbatim>\<open>executedFunction\<close>, called at time \<open>now\<close> with arguments \<open>a\<close>.\<close>

definition executedFunction :: "real \<Rightarrow> real \<Rightarrow> 'a \<Rightarrow> 'a debounced \<Rightarrow> 'a debounced" where
  "executedFunction wait now a st =
     (case setTimeout a wait now (clearTimeout (timeout st) st) of
        (h, st') \<Rightarrow> st'\<lparr>timeout := Some h\<rparr>)"

definition debounce :: "'a debounced" where
  "debounce = \<lparr>timers = [], next_id = 1, timeout = None, invocations = []\<rparr>"

text \<open>
  The browser's side. A timer fires when its delay has passed (here: exactly then), the
  earliest first, and of two with the same due time the one set first. Firing removes the
  timer and runs its callback. \<open>advance T\<close> lets the time pass up to \<open>T\<close>.
\<close>

fun earliest :: "'a timer list \<Rightarrow> 'a timer option" where
  "earliest [] = None"
| "earliest (u # us) =
     (case earliest us of
        None \<Rightarrow> Some u
      | Some v \<Rightarrow> if due v < due u then Some v else Some u)"

definition next_due :: "real \<Rightarrow> 'a debounced \<Rightarrow> 'a timer option" where
  "next_due T st = earliest (filter (\<lambda>u. due u \<le> T) (timers st))"

definition fire :: "'a timer \<Rightarrow> 'a debounced \<Rightarrow> 'a debounced" where
  "fire u st =
     later (due u) (timer_args u)
       (st\<lparr>timers := filter (\<lambda>v. timer_id v \<noteq> timer_id u) (timers st)\<rparr>)"

lemma earliest_in_set: "earliest us = Some u \<Longrightarrow> u \<in> set us"
  by (induction us arbitrary: u) (auto split: option.splits if_splits)

lemma clearTimeout_length: "length (timers (clearTimeout h s)) \<le> length (timers s)"
  by (cases h) (simp_all add: clearTimeout_def)

lemma fire_fewer_timers:
  assumes "next_due T st = Some u"
  shows "length (timers (fire u st)) < length (timers st)"
proof -
  from assms have "u \<in> set (timers st)"
    using earliest_in_set [of "filter (\<lambda>u. due u \<le> T) (timers st)" u]
    by (simp add: next_due_def)
  then have "length (filter (\<lambda>v. timer_id v \<noteq> timer_id u) (timers st)) < length (timers st)"
    by (intro length_filter_less [of u]) simp_all
  moreover have "length (timers (fire u st))
                 \<le> length (filter (\<lambda>v. timer_id v \<noteq> timer_id u) (timers st))"
  proof -
    let ?st = "st\<lparr>timers := filter (\<lambda>v. timer_id v \<noteq> timer_id u) (timers st)\<rparr>"
    have "timers (fire u st) = timers (clearTimeout (timeout ?st) ?st)"
      by (simp add: fire_def later_def Let_def)
    also have "length \<dots> \<le> length (timers ?st)"
      by (rule clearTimeout_length)
    finally show ?thesis by simp
  qed
  ultimately show ?thesis by simp
qed

function advance :: "real \<Rightarrow> 'a debounced \<Rightarrow> 'a debounced" where
  "advance T st =
     (case next_due T st of
        None \<Rightarrow> st
      | Some u \<Rightarrow> advance T (fire u st))"
  by pat_completeness auto
termination
  by (relation "measure (\<lambda>(T, st). length (timers st))") (simp_all add: fire_fewer_timers)

declare advance.simps [simp del]

text \<open>
  A sequence of calls of the wrapper, each with its time and arguments, in the order of
  time: before each call the timers that are due by then fire.
\<close>

fun debounce_run :: "real \<Rightarrow> (real \<times> 'a) list \<Rightarrow> 'a debounced \<Rightarrow> 'a debounced" where
  "debounce_run wait [] st = st"
| "debounce_run wait ((t, a) # cs) st =
     debounce_run wait cs (executedFunction wait t a (advance t st))"

text \<open>
  A burst for the wait time \<open>w\<close>: the calls are in the order of time and each arrives
  less than \<open>w\<close> after the one before.
\<close>

fun burst :: "real \<Rightarrow> (real \<times> 'a) list \<Rightarrow> bool" where
  "burst w [] = True"
| "burst w [c] = True"
| "burst w (c # d # cs) = (fst c \<le> fst d \<and> fst d - fst c < w \<and> burst w (d # cs))"

text \<open>
  A quiet wrapper: no timer of it is pending, and the id that the variable
  \<^verbatim>\<open>timeout\<close> may still hold is one the browser has handed out before.
\<close>

definition quiet :: "'a debounced \<Rightarrow> bool" where
  "quiet st = (timers st = [] \<and> (case timeout st of None \<Rightarrow> True | Some h \<Rightarrow> h < next_id st))"

text \<open>
  The state between the calls of a burst: exactly one timer is pending, it is the one the
  variable \<^verbatim>\<open>timeout\<close> names, it is due at \<open>d\<close> and its callback holds
  the arguments \<open>a\<close>. \<open>chain w d cs\<close>: each call of \<open>cs\<close> arrives before the
  timer of the call before it is due, the first before \<open>d\<close>.
\<close>

definition pending :: "'a debounced \<Rightarrow> real \<Rightarrow> 'a \<Rightarrow> bool" where
  "pending st d a =
     (\<exists>h. timers st = [\<lparr>timer_id = h, due = d, timer_args = a\<rparr>] \<and> timeout st = Some h
          \<and> h < next_id st)"

fun chain :: "real \<Rightarrow> real \<Rightarrow> (real \<times> 'a) list \<Rightarrow> bool" where
  "chain w d [] = True"
| "chain w d ((t, a) # cs) = (t < d \<and> chain w (t + w) cs)"

subsection \<open>Statistics counter\<close>

text \<open>
  The counter computes with JavaScript numbers, which are IEEE doubles. The type \<open>'v\<close>
  stands for the numbers other than \<^verbatim>\<open>NaN\<close>, finite or infinite, and a number is
  \<^verbatim>\<open>NaN\<close> or such a value. What an operation yields on operands other than
  \<^verbatim>\<open>NaN\<close> belongs to the engine: the rounding of every sum, difference, product and
  quotient, the result of \<^verbatim>\<open>Math.pow\<close> (which the language leaves to the
  implementation), the overflow to the infinities, the digits of a number's string. All
  of it is a parameter of the model, the record \<open>platform\<close>, and no property of it is
  assumed. What the language fixes for every engine is fixed here: an operation with an
  operand \<^verbatim>\<open>NaN\<close> yields \<^verbatim>\<open>NaN\<close>, a comparison with \<^verbatim>\<open>NaN\<close> is
  false, and the string of \<^verbatim>\<open>NaN\<close> is \<^verbatim>\<open>NaN\<close>.
\<close>

type_synonym js_string = "16 word list"

datatype 'v number = NaN | Val 'v

text \<open>
  \<open>op_number i\<close> is the number for the integer \<open>i\<close>, as a literal of the source or as
  the result of \<^verbatim>\<open>parseInt\<close> (the nearest double, possibly infinite);
  \<open>op_neg_zero\<close> is the negative zero. The differences, sums, products, quotients
  and powers of two values may be \<^verbatim>\<open>NaN\<close>; the minimum and the floor of values
  are values.
\<close>

record 'v platform =
  op_number :: "int \<Rightarrow> 'v"
  op_neg_zero :: 'v
  op_sub :: "'v \<Rightarrow> 'v \<Rightarrow> 'v number"
  op_add :: "'v \<Rightarrow> 'v \<Rightarrow> 'v number"
  op_mul :: "'v \<Rightarrow> 'v \<Rightarrow> 'v number"
  op_div :: "'v \<Rightarrow> 'v \<Rightarrow> 'v number"
  op_pow :: "'v \<Rightarrow> 'v \<Rightarrow> 'v number"
  op_min :: "'v \<Rightarrow> 'v \<Rightarrow> 'v"
  op_floor :: "'v \<Rightarrow> 'v"
  op_lt :: "'v \<Rightarrow> 'v \<Rightarrow> bool"
  op_string :: "'v \<Rightarrow> string"

text \<open>A binary operation of the engine, extended to \<^verbatim>\<open>NaN\<close>.\<close>

definition lift2 :: "('v \<Rightarrow> 'v \<Rightarrow> 'v number) \<Rightarrow> 'v number \<Rightarrow> 'v number \<Rightarrow> 'v number" where
  "lift2 f a b =
     (case a of
        NaN \<Rightarrow> NaN
      | Val x \<Rightarrow> (case b of NaN \<Rightarrow> NaN | Val y \<Rightarrow> f x y))"

definition js_sub :: "'v platform \<Rightarrow> 'v number \<Rightarrow> 'v number \<Rightarrow> 'v number" where
  "js_sub pf a b = lift2 (op_sub pf) a b"

definition js_add :: "'v platform \<Rightarrow> 'v number \<Rightarrow> 'v number \<Rightarrow> 'v number" where
  "js_add pf a b = lift2 (op_add pf) a b"

definition js_mul :: "'v platform \<Rightarrow> 'v number \<Rightarrow> 'v number \<Rightarrow> 'v number" where
  "js_mul pf a b = lift2 (op_mul pf) a b"

definition js_div :: "'v platform \<Rightarrow> 'v number \<Rightarrow> 'v number \<Rightarrow> 'v number" where
  "js_div pf a b = lift2 (op_div pf) a b"

definition Math_min :: "'v platform \<Rightarrow> 'v number \<Rightarrow> 'v number \<Rightarrow> 'v number" where
  "Math_min pf a b = lift2 (\<lambda>x y. Val (op_min pf x y)) a b"

text \<open>
  \<^verbatim>\<open>Math.pow(a, n)\<close> for an integer literal \<open>n\<close>: the power with exponent zero is
  1 for every base, \<^verbatim>\<open>NaN\<close> included.
\<close>

definition Math_pow :: "'v platform \<Rightarrow> 'v number \<Rightarrow> int \<Rightarrow> 'v number" where
  "Math_pow pf a n =
     (if n = 0 then Val (op_number pf 1)
      else case a of NaN \<Rightarrow> NaN | Val x \<Rightarrow> op_pow pf x (op_number pf n))"

definition Math_floor :: "'v platform \<Rightarrow> 'v number \<Rightarrow> 'v number" where
  "Math_floor pf a = (case a of NaN \<Rightarrow> NaN | Val x \<Rightarrow> Val (op_floor pf x))"

definition js_lt :: "'v platform \<Rightarrow> 'v number \<Rightarrow> 'v number \<Rightarrow> bool" where
  "js_lt pf a b =
     (case a of
        NaN \<Rightarrow> False
      | Val x \<Rightarrow> (case b of NaN \<Rightarrow> False | Val y \<Rightarrow> op_lt pf x y))"

text \<open>The string of a number, as the assignment to \<^verbatim>\<open>textContent\<close> converts it.\<close>

definition ToString :: "'v platform \<Rightarrow> 'v number \<Rightarrow> string" where
  "ToString pf a = (case a of NaN \<Rightarrow> ''NaN'' | Val x \<Rightarrow> op_string pf x)"

text \<open>
  White space and line terminators of ECMAScript, which \<^verbatim>\<open>parseInt\<close> and
  \<^verbatim>\<open>trim\<close> strip and \<^verbatim>\<open>\s\<close> matches.
\<close>

definition isWhiteSpace :: "16 word \<Rightarrow> bool" where
  "isWhiteSpace c =
     (c = 0x0009 \<or> c = 0x000A \<or> c = 0x000B \<or> c = 0x000C \<or> c = 0x000D \<or> c = 0x0020
      \<or> c = 0x00A0 \<or> c = 0x1680 \<or> (0x2000 \<le> c \<and> c \<le> 0x200A) \<or> c = 0x2028 \<or> c = 0x2029
      \<or> c = 0x202F \<or> c = 0x205F \<or> c = 0x3000 \<or> c = 0xFEFF)"

definition isDigit :: "16 word \<Rightarrow> bool" where
  "isDigit c = (0x0030 \<le> c \<and> c \<le> 0x0039)"

definition digits_value :: "js_string \<Rightarrow> int" where
  "digits_value ds = foldl (\<lambda>v c. 10 * v + (uint c - 48)) 0 ds"

text \<open>The sign that \<^verbatim>\<open>parseInt\<close> reads, and the rest of the string.\<close>

fun strip_sign :: "js_string \<Rightarrow> int \<times> js_string" where
  "strip_sign [] = (1, [])"
| "strip_sign (c # cs) =
     (if c = 0x002D then (- 1, cs) else if c = 0x002B then (1, cs) else (1, c # cs))"

text \<open>
  \<^verbatim>\<open>parseInt(v, 10)\<close> for the result \<open>v\<close> of \<^verbatim>\<open>getAttribute\<close>:
  \<^verbatim>\<open>null\<close> is first converted to the string \<^verbatim>\<open>null\<close>. Leading white
  space is skipped, a sign is read, then the longest run of decimal digits; without a
  digit the result is \<^verbatim>\<open>NaN\<close>. Otherwise it is the engine's number for the
  signed integer the digits denote, the negative zero for a zero after a minus sign.
\<close>

definition parseInt :: "'v platform \<Rightarrow> js_string option \<Rightarrow> 'v number" where
  "parseInt pf v =
     (let inputString = (case v of None \<Rightarrow> [0x006E, 0x0075, 0x006C, 0x006C] | Some s \<Rightarrow> s);
          (sign, rest) = strip_sign (dropWhile isWhiteSpace inputString);
          ds = takeWhile isDigit rest
      in if ds = [] then NaN
         else if digits_value ds = 0 \<and> sign = - 1 then Val (op_neg_zero pf)
         else Val (op_number pf (sign * digits_value ds)))"

text \<open>
  \<^verbatim>\<open>updateCount\<close> for an animation that started at \<open>startTime\<close> towards
  \<open>target\<close>, called with the frame's time stamp \<open>currentTime\<close> (both time stamps are
  numbers other than \<^verbatim>\<open>NaN\<close>). The definitions follow lines 82 to 92 operation by
  operation.
\<close>

definition progress_at :: "'v platform \<Rightarrow> 'v \<Rightarrow> 'v \<Rightarrow> 'v number" where
  "progress_at pf startTime currentTime =
     (let duration = Val (op_number pf (countAnimationDuration config));
          elapsed = js_sub pf (Val currentTime) (Val startTime)
      in Math_min pf (js_div pf elapsed duration) (Val (op_number pf 1)))"

definition easeProgress_at :: "'v platform \<Rightarrow> 'v \<Rightarrow> 'v \<Rightarrow> 'v number" where
  "easeProgress_at pf startTime currentTime =
     js_sub pf (Val (op_number pf 1))
       (Math_pow pf (js_sub pf (Val (op_number pf 1)) (progress_at pf startTime currentTime)) 3)"

definition current_at :: "'v platform \<Rightarrow> 'v number \<Rightarrow> 'v \<Rightarrow> 'v \<Rightarrow> 'v number" where
  "current_at pf target startTime currentTime =
     (let start = Val (op_number pf 0)
      in Math_floor pf
           (js_add pf start
              (js_mul pf (js_sub pf target start) (easeProgress_at pf startTime currentTime))))"

text \<open>
  The values \<^verbatim>\<open>updateCount\<close> assigns to \<^verbatim>\<open>element.textContent\<close>, in
  order, and whether it requests another frame.
\<close>

definition updateCount :: "'v platform \<Rightarrow> 'v number \<Rightarrow> 'v \<Rightarrow> 'v \<Rightarrow> 'v number list \<times> bool" where
  "updateCount pf target startTime currentTime =
     (let current = current_at pf target startTime currentTime
      in if js_lt pf (progress_at pf startTime currentTime) (Val (op_number pf 1))
         then ([current], True)
         else ([current, target], False))"

text \<open>
  One animation over the frames the browser delivers, with their time stamps: every
  value assigned to the element's text. The animation ends with the first frame that
  requests no further one; frames after it do not reach it.
\<close>

fun animateCount_writes :: "'v platform \<Rightarrow> 'v number \<Rightarrow> 'v \<Rightarrow> 'v list \<Rightarrow> 'v number list" where
  "animateCount_writes pf target startTime [] = []"
| "animateCount_writes pf target startTime (t # ts) =
     (case updateCount pf target startTime t of
        (ws, again) \<Rightarrow> ws @ (if again then animateCount_writes pf target startTime ts else []))"

text \<open>The assignment \<^verbatim>\<open>element.textContent = v\<close> of a number.\<close>

definition write_text :: "'v platform \<Rightarrow> 'a element_scheme \<Rightarrow> 'v number \<Rightarrow> 'a element_scheme" where
  "write_text pf el v = el\<lparr>textContent := ToString pf v\<rparr>"

text \<open>
  \<^verbatim>\<open>animateCount(element, target)\<close>, called at \<open>startTime\<close>, after the frames
  \<open>ts\<close>, when nothing else writes to the element: the values are assigned in order.
\<close>

definition animateCount ::
  "'v platform \<Rightarrow> 'a element_scheme \<Rightarrow> 'v number \<Rightarrow> 'v \<Rightarrow> 'v list \<Rightarrow> 'a element_scheme" where
  "animateCount pf el target startTime ts =
     foldl (write_text pf) el (animateCount_writes pf target startTime ts)"

text \<open>
  The statistics observer and the animations together. A stat element carries the
  attribute \<^verbatim>\<open>data-count\<close> (\<open>None\<close> when absent). The page holds the stat
  elements, the targets the observer observes, and the animations that are waiting for
  their next frame, each with its element, its target and its start time, in the order
  in which their callbacks were requested.
\<close>

record stat_element = element +
  data_count :: "js_string option"

record 'v animation =
  anim_element :: node
  anim_target :: "'v number"
  anim_start :: 'v

record 'v stats_page =
  statNumbers :: "node list"
  stat_els :: "node \<Rightarrow> stat_element"
  stats_observed :: "node set"
  animations :: "'v animation list"

definition stats_options :: observer_options where
  "stats_options = \<lparr>threshold = 1 / 2, rootMargin = ''0px''\<rparr>"

text \<open>
  The call \<^verbatim>\<open>animateCount(element, target)\<close> on the page at the time \<open>now\<close>
  (the value of \<^verbatim>\<open>performance.now()\<close>): the first frame is requested.
\<close>

definition animateCount_call :: "'v \<Rightarrow> node \<Rightarrow> 'v number \<Rightarrow> 'v stats_page \<Rightarrow> 'v stats_page" where
  "animateCount_call now el target s =
     s\<lparr>animations := animations s @ [\<lparr>anim_element = el, anim_target = target, anim_start = now\<rparr>]\<rparr>"

text \<open>The body of the callback's \<^verbatim>\<open>forEach\<close>, lines 261 to 265, at time \<open>now\<close>.\<close>

definition stats_entry :: "'v platform \<Rightarrow> 'v \<Rightarrow> 'v stats_page \<Rightarrow> entry \<Rightarrow> 'v stats_page" where
  "stats_entry pf now s en =
     (if isIntersecting en
      then (let target = parseInt pf (data_count (stat_els s (entry_target en)));
                s1 = animateCount_call now (entry_target en) target s
            in s1\<lparr>stats_observed := stats_observed s1 - {entry_target en}\<rparr>)
      else s)"

definition stats_callback :: "'v platform \<Rightarrow> 'v \<Rightarrow> 'v stats_page \<Rightarrow> entry list \<Rightarrow> 'v stats_page" where
  "stats_callback pf now s entries = foldl (stats_entry pf now) s entries"

text \<open>\<^verbatim>\<open>initStatsCounter\<close>: nothing is observed when there is no stat element.\<close>

definition initStatsCounter :: "'v stats_page \<Rightarrow> 'v stats_page" where
  "initStatsCounter s =
     (if length (statNumbers s) = 0 then s
      else s\<lparr>stats_observed := foldl observe (stats_observed s) (statNumbers s)\<rparr>)"

text \<open>
  The callback \<^verbatim>\<open>updateCount\<close> of the animation \<open>a\<close>, run in the frame with the
  time stamp \<open>t\<close>: it assigns its values to the animation's element and, if it requests
  another frame, waits again.
\<close>

definition updateCount_run :: "'v platform \<Rightarrow> 'v \<Rightarrow> 'v stats_page \<Rightarrow> 'v animation \<Rightarrow> 'v stats_page" where
  "updateCount_run pf t s a =
     (case updateCount pf (anim_target a) (anim_start a) t of
        (ws, again) \<Rightarrow>
          s\<lparr>stat_els := (stat_els s)
                 (anim_element a := foldl (write_text pf) (stat_els s (anim_element a)) ws),
            animations := (if again then animations s @ [a] else animations s)\<rparr>)"

text \<open>
  An animation frame: the browser runs the callbacks that were waiting when the frame
  began, in the order of their requests; a callback requested during the frame waits for
  the next one.
\<close>

definition animation_frame :: "'v platform \<Rightarrow> 'v \<Rightarrow> 'v stats_page \<Rightarrow> 'v stats_page" where
  "animation_frame pf t s = foldl (updateCount_run pf t) (s\<lparr>animations := []\<rparr>) (animations s)"

text \<open>
  What happens to the page after \<^verbatim>\<open>initStatsCounter\<close>: the observer's callback
  is invoked with entries, at some time, or an animation frame begins.
\<close>

datatype 'v stats_event = Intersection 'v "entry list" | Frame 'v

fun stats_step :: "'v platform \<Rightarrow> 'v stats_page \<Rightarrow> 'v stats_event \<Rightarrow> 'v stats_page" where
  "stats_step pf s (Intersection now entries) = stats_callback pf now s entries"
| "stats_step pf s (Frame t) = animation_frame pf t s"

definition stats_run :: "'v platform \<Rightarrow> 'v stats_page \<Rightarrow> 'v stats_event list \<Rightarrow> 'v stats_page" where
  "stats_run pf s evs = foldl (stats_step pf) s evs"

text \<open>The page at load: no animation is waiting, and \<^verbatim>\<open>initStatsCounter\<close> has run.\<close>

definition stats_start :: "node list \<Rightarrow> (node \<Rightarrow> stat_element) \<Rightarrow> 'v stats_page" where
  "stats_start ns els0 =
     initStatsCounter \<lparr>statNumbers = ns, stat_els = els0, stats_observed = {}, animations = []\<rparr>"

text \<open>Whether an event is a frame.\<close>

fun is_frame :: "'v stats_event \<Rightarrow> bool" where
  "is_frame (Frame t) = True"
| "is_frame (Intersection now entries) = False"

text \<open>
  For the element \<open>el\<close>: every animation waiting on it counts to \<^verbatim>\<open>NaN\<close>; some animation is
  waiting on it; its attribute parses to \<^verbatim>\<open>NaN\<close> and every animation waiting on it
  counts to \<^verbatim>\<open>NaN\<close>; its text is \<^verbatim>\<open>NaN\<close>.
\<close>

definition el_targets_NaN :: "node \<Rightarrow> 'v stats_page \<Rightarrow> bool" where
  "el_targets_NaN el s = (\<forall>a\<in>set (animations s). anim_element a = el \<longrightarrow> anim_target a = NaN)"

definition el_waiting :: "node \<Rightarrow> 'v stats_page \<Rightarrow> bool" where
  "el_waiting el s = (\<exists>a\<in>set (animations s). anim_element a = el)"

definition counts_to_NaN :: "'v platform \<Rightarrow> node \<Rightarrow> 'v stats_page \<Rightarrow> bool" where
  "counts_to_NaN pf el s =
     (parseInt pf (data_count (stat_els s el)) = NaN \<and> el_targets_NaN el s)"

definition shows_NaN :: "node \<Rightarrow> 'v stats_page \<Rightarrow> bool" where
  "shows_NaN el s = (textContent (stat_els s el) = ''NaN'')"

text \<open>
  An engine for examples, over the reals: every operation is exact, except that
  \<^verbatim>\<open>Math.pow\<close> is too large by one hundredth. An integer is shown in decimal
  digits.
\<close>

fun decimal :: "nat \<Rightarrow> string" where
  "decimal n =
     (if n < 10 then [''0123456789'' ! n]
      else decimal (n div 10) @ [''0123456789'' ! (n mod 10)])"

declare decimal.simps [simp del]

definition int_string :: "int \<Rightarrow> string" where
  "int_string i = (if i < 0 then CHR ''-'' # decimal (nat (- i)) else decimal (nat i))"

definition inexact_pow :: "real \<Rightarrow> real \<Rightarrow> real number" where
  "inexact_pow x y = Val (x ^ nat \<lfloor>y\<rfloor> + 1 / 100)"

definition exact_sub :: "real \<Rightarrow> real \<Rightarrow> real number" where
  "exact_sub x y = Val (x - y)"

definition exact_add :: "real \<Rightarrow> real \<Rightarrow> real number" where
  "exact_add x y = Val (x + y)"

definition exact_mul :: "real \<Rightarrow> real \<Rightarrow> real number" where
  "exact_mul x y = Val (x * y)"

definition exact_div :: "real \<Rightarrow> real \<Rightarrow> real number" where
  "exact_div x y = (if y = 0 then NaN else Val (x / y))"

definition floor_string :: "real \<Rightarrow> string" where
  "floor_string x = int_string \<lfloor>x\<rfloor>"

definition floor_real :: "real \<Rightarrow> real" where
  "floor_real x = of_int \<lfloor>x\<rfloor>"

definition example_platform :: "real platform" where
  "example_platform =
     \<lparr>op_number = of_int, op_neg_zero = 0, op_sub = exact_sub, op_add = exact_add,
      op_mul = exact_mul, op_div = exact_div, op_pow = inexact_pow, op_min = min,
      op_floor = floor_real, op_lt = (<), op_string = floor_string\<rparr>"

definition stat_element_example :: stat_element where
  "stat_element_example =
     \<lparr>classList = {''stat__number''}, attributes = Map.empty, textContent = ''0'',
      data_count = None\<rparr>"

definition stats_doc_example :: "node \<Rightarrow> stat_element" where
  "stats_doc_example n = stat_element_example"

subsection \<open>Contact form: patterns\<close>

text \<open>
  The three validation patterns have one shape: between \<^verbatim>\<open>^\<close> and \<^verbatim>\<open>$\<close>
  (no flag is set, so these match the start and the end of the input) a sequence of
  character classes, each with a repetition range. \<open>Atom c lo hi\<close> is the class \<open>c\<close>
  repeated at least \<open>lo\<close> and, if \<open>hi\<close> is given, at most that many times; a literal
  character is a class of one member repeated once. \<^verbatim>\<open>test\<close> says whether some way
  of splitting the whole input among the atoms exists, which is what the backtracking
  matcher decides.
\<close>

datatype atom = Atom "16 word \<Rightarrow> bool" nat "nat option"

fun test :: "atom list \<Rightarrow> js_string \<Rightarrow> bool" where
  "test [] s = (s = [])"
| "test (Atom c lo hi # rest) s =
     list_ex (\<lambda>k. list_all c (take k s) \<and> test rest (drop k s))
       [lo ..< Suc (case hi of None \<Rightarrow> length s | Some h \<Rightarrow> min h (length s))]"

definition lower :: "16 word \<Rightarrow> bool" where
  "lower c = (0x0061 \<le> c \<and> c \<le> 0x007A)"

definition upper :: "16 word \<Rightarrow> bool" where
  "upper c = (0x0041 \<le> c \<and> c \<le> 0x005A)"

text \<open>The third range of the name pattern, from A with grave to y with diaeresis: U+00C0 to U+00FF.\<close>

definition latin1_range :: "16 word \<Rightarrow> bool" where
  "latin1_range c = (0x00C0 \<le> c \<and> c \<le> 0x00FF)"

definition literal :: "16 word \<Rightarrow> atom" where
  "literal x = Atom (\<lambda>c. c = x) 1 (Some 1)"

definition name_class :: "16 word \<Rightarrow> bool" where
  "name_class c = (lower c \<or> upper c \<or> latin1_range c \<or> isWhiteSpace c)"

definition email_local_class :: "16 word \<Rightarrow> bool" where
  "email_local_class c =
     (lower c \<or> upper c \<or> isDigit c \<or> c = 0x002E \<or> c = 0x005F \<or> c = 0x0025
      \<or> c = 0x002B \<or> c = 0x002D)"

definition email_domain_class :: "16 word \<Rightarrow> bool" where
  "email_domain_class c = (lower c \<or> upper c \<or> isDigit c \<or> c = 0x002E \<or> c = 0x002D)"

definition email_tld_class :: "16 word \<Rightarrow> bool" where
  "email_tld_class c = (lower c \<or> upper c)"

text \<open>The dot: any code unit but a line terminator.\<close>

definition dot_class :: "16 word \<Rightarrow> bool" where
  "dot_class c = (\<not> (c = 0x000A \<or> c = 0x000D \<or> c = 0x2028 \<or> c = 0x2029))"

definition name_pattern :: "atom list" where
  "name_pattern = [Atom name_class 2 (Some 50)]"

definition email_pattern :: "atom list" where
  "email_pattern =
     [Atom email_local_class 1 None, literal 0x0040, Atom email_domain_class 1 None,
      literal 0x002E, Atom email_tld_class 2 None]"

definition message_pattern :: "atom list" where
  "message_pattern = [Atom dot_class 10 (Some 1000)]"

text \<open>
  The lookup \<^verbatim>\<open>patterns[fieldName]\<close>. The object has three properties of its own;
  for the name of a property of \<^verbatim>\<open>Object.prototype\<close> the lookup gives that
  property, which is truthy and has no \<^verbatim>\<open>test\<close> method; for every other name
  it gives \<^verbatim>\<open>undefined\<close>.
\<close>

datatype pattern_entry = Pattern "atom list" | Inherited | Undefined

definition object_prototype_keys :: "string list" where
  "object_prototype_keys =
     [''constructor'', ''hasOwnProperty'', ''isPrototypeOf'', ''propertyIsEnumerable'',
      ''toLocaleString'', ''toString'', ''valueOf'', ''__proto__'', ''__defineGetter__'',
      ''__defineSetter__'', ''__lookupGetter__'', ''__lookupSetter__'']"

definition patterns :: "string \<Rightarrow> pattern_entry" where
  "patterns fieldName =
     (if fieldName = ''name'' then Pattern name_pattern
      else if fieldName = ''email'' then Pattern email_pattern
      else if fieldName = ''message'' then Pattern message_pattern
      else if fieldName \<in> set object_prototype_keys then Inherited
      else Undefined)"

text \<open>
  \<^verbatim>\<open>errorMessages[fieldName] || 'Campo non valido'\<close>. (It is evaluated only after
  the pattern lookup has not thrown, so never for an inherited name.)
\<close>

definition errorMessage :: "string \<Rightarrow> string" where
  "errorMessage fieldName =
     (if fieldName = ''name'' then ''Inserisci un nome valido (almeno 2 caratteri)''
      else if fieldName = ''email'' then ''Inserisci un indirizzo email valido''
      else if fieldName = ''message'' then ''Il messaggio deve contenere almeno 10 caratteri''
      else ''Campo non valido'')"

definition trim :: "js_string \<Rightarrow> js_string" where
  "trim s = rev (dropWhile isWhiteSpace (rev (dropWhile isWhiteSpace s)))"

subsection \<open>Contact form: validation and submission\<close>

text \<open>
  An element inside the form: what the script reads of a field (its name, its value,
  whether it is required) and what it writes (classes, text, the \<^verbatim>\<open>disabled\<close>
  flag). The elements matched by \<^verbatim>\<open>.form__input, .form__textarea\<close> are taken to
  be form controls, which have a name and a value.

  The form: its descendants in document order, the state of each, for each field the
  element that \<^verbatim>\<open>field.parentElement.querySelector('.form__error')\<close> finds, the
  submit button and the success message if present, the element whose
  \<^verbatim>\<open>focus()\<close> was called last, and whether the simulated submission (the timer of
  1500 milliseconds) has been started.
\<close>

record form_node = element +
  name :: string
  field_value :: js_string
  required :: bool
  disabled :: bool


text \<open>Lines 313 to 319: the value of \<^verbatim>\<open>isValid\<close> for a field that is not the subject.\<close>

definition isValid_of :: "form_node \<Rightarrow> error + bool" where
  "isValid_of field =
     (let fieldName = name field;
          v = trim (field_value field)
      in case patterns fieldName of
           Pattern re \<Rightarrow> Inr (test re v)
         | Inherited \<Rightarrow> Inl TypeError
         | Undefined \<Rightarrow> Inr (\<not> (required field \<and> v = [])))"

text \<open>Lines 321 to 333: the error state is shown or cleared.\<close>

definition show_error :: "(node \<Rightarrow> node option) \<Rightarrow> (node \<Rightarrow> form_node) \<Rightarrow> node \<Rightarrow> (node \<Rightarrow> form_node)" where
  "show_error errEl d f =
     (let d1 = d(f := classList_add ''error'' (d f))
      in case errEl f of
           None \<Rightarrow> d1
         | Some e \<Rightarrow>
             d1(e := classList_add ''visible'' ((d1 e)\<lparr>textContent := errorMessage (name (d f))\<rparr>)))"

definition clear_error :: "(node \<Rightarrow> node option) \<Rightarrow> (node \<Rightarrow> form_node) \<Rightarrow> node \<Rightarrow> (node \<Rightarrow> form_node)" where
  "clear_error errEl d f =
     (let d1 = d(f := classList_remove ''error'' (d f))
      in case errEl f of
           None \<Rightarrow> d1
         | Some e \<Rightarrow> d1(e := classList_remove ''visible'' ((d1 e)\<lparr>textContent := ''''\<rparr>)))"

definition validateField ::
  "(node \<Rightarrow> node option) \<Rightarrow> (node \<Rightarrow> form_node) \<Rightarrow> node \<Rightarrow> error + bool \<times> (node \<Rightarrow> form_node)" where
  "validateField errEl d f =
     (if name (d f) = ''subject'' then Inr (True, d)
      else case isValid_of (d f) of
             Inl e \<Rightarrow> Inl e
           | Inr isValid \<Rightarrow>
               if \<not> isValid then Inr (isValid, show_error errEl d f)
               else Inr (isValid, clear_error errEl d f))"







text \<open>
  The letters of the name pattern's third range: U+00C0 to U+00FF without the
  multiplication sign U+00D7 and the division sign U+00F7.
\<close>

definition latin1_letter :: "16 word \<Rightarrow> bool" where
  "latin1_letter c = (latin1_range c \<and> c \<noteq> 0x00D7 \<and> c \<noteq> 0x00F7)"

text \<open>
  The name rule in the words of the specification: 2 to 50 letters or spaces, where the
  letters include the accented Latin letters. For the letters this takes the basic Latin
  letters and the letters of the blocks Latin-1 Supplement and Latin Extended-A (all of
  U+0100 to U+017F are letters), for the space U+0020.
\<close>

definition spec_letter :: "16 word \<Rightarrow> bool" where
  "spec_letter c = (lower c \<or> upper c \<or> latin1_letter c \<or> (0x0100 \<le> c \<and> c \<le> 0x017F))"

definition spec_name_valid :: "js_string \<Rightarrow> bool" where
  "spec_name_valid s =
     (2 \<le> length s \<and> length s \<le> 50 \<and> list_all (\<lambda>c. spec_letter c \<or> c = 0x0020) s)"

definition name_field :: "js_string \<Rightarrow> form_node" where
  "name_field v =
     \<lparr>classList = {''form__input''}, attributes = Map.empty, textContent = [],
      name = ''name'', field_value = v, required = True, disabled = False\<rparr>"

text \<open>
  A form all of whose elements are that name field with the value \<open>v\<close>, and the
  lookup of error elements in a form that has none.
\<close>

definition name_form :: "js_string \<Rightarrow> node \<Rightarrow> form_node" where
  "name_form v n = name_field v"

definition no_error_elements :: "node \<Rightarrow> node option" where
  "no_error_elements n = None"








section \<open>Properties\<close>

subsection \<open>Header scroll effect\<close>

text \<open>
  Claim C8. After the header scroll handler has run on a page with a header, the header
  carries the class \<^verbatim>\<open>scrolled\<close> if and only if the vertical scroll offset is
  strictly greater than the threshold of 100 pixels, whatever its classes were before:
  one cutoff in both directions, no hysteresis. Nothing else of the header changes.
\<close>

theorem handleHeaderScroll_scrolled_iff:
  "\<exists>h'. handleHeaderScroll scrollY (Some h) = Inr h'
     \<and> (classList_contains ''scrolled'' h' \<longleftrightarrow> scrollY > 100)
     \<and> scrollThreshold config = 100
     \<and> classList h' - {''scrolled''} = classList h - {''scrolled''}
     \<and> attributes h' = attributes h \<and> textContent h' = textContent h"
  by (simp add: handleHeaderScroll_def config_def classList_add_def classList_remove_def
      classList_contains_def)

subsection \<open>Mobile navigation\<close>

lemma closeMobileMenu_closed_id:
  assumes "menu_closed p"
  shows "closeMobileMenu p = Inr p"
proof -
  from assms obtain m t where mt: "navMenu p = Some m" "navToggle p = Some t"
    by (auto simp: menu_closed_def split: option.splits)
  from assms mt have c: "''open'' \<notin> classList m" "attributes t ''aria-expanded'' = Some ''false''"
    "''menu-open'' \<notin> classList (body p)"
    by (simp_all add: menu_closed_def classList_contains_def)
  have "classList_remove ''open'' m = m"
    using c(1) by (simp add: classList_remove_def)
  moreover have "setAttribute ''aria-expanded'' ''false'' t = t"
    using c(2) by (simp add: setAttribute_def fun_upd_idem)
  moreover have "classList_remove ''menu-open'' (body p) = body p"
    using c(3) by (simp add: classList_remove_def)
  ultimately show ?thesis
    using mt by (simp add: closeMobileMenu_def)
qed

lemma closeMobileMenu_makes_closed:
  assumes "navMenu p = Some m" "navToggle p = Some t"
  shows "\<exists>p'. closeMobileMenu p = Inr p' \<and> menu_closed p'"
  using assms
  by (simp add: closeMobileMenu_def menu_closed_def classList_remove_def
      classList_contains_def setAttribute_def)

lemma escape_when_not_open:
  assumes "\<not> menu_has_open p"
  shows "document_keydown ''Escape'' p = Inr p"
  using assms
  by (auto simp: document_keydown_def keydownListener_def menu_has_open_def
      initMobileNav_registers_def split: option.splits)

text \<open>
  Claim C6. Closing the menu is idempotent. On a page that has the menu and its toggle
  (the only pages on which the close operation is ever registered), \<^verbatim>\<open>closeMobileMenu\<close>
  raises no error and leaves the menu closed: no \<^verbatim>\<open>open\<close> class,
  \<^verbatim>\<open>aria-expanded\<close> equal to \<^verbatim>\<open>false\<close>, no scroll-lock class on the
  body; applied to the closed page it returns that page unchanged. Pressing Escape while
  the menu does not carry \<^verbatim>\<open>open\<close> changes nothing and raises no error, once
  or twice, on every page (also one without menu or toggle, where no listener exists).
\<close>

theorem closeMobileMenu_idempotent:
  "(navMenu p \<noteq> None \<and> navToggle p \<noteq> None \<longrightarrow>
      (\<exists>p'. closeMobileMenu p = Inr p' \<and> menu_closed p' \<and> closeMobileMenu p' = Inr p'))
   \<and> (menu_closed p \<longrightarrow> closeMobileMenu p = Inr p)
   \<and> (\<not> menu_has_open p \<longrightarrow>
        document_keydown ''Escape'' p = Inr p
        \<and> (case document_keydown ''Escape'' p of
             Inl e \<Rightarrow> Inl e
           | Inr p1 \<Rightarrow> document_keydown ''Escape'' p1) = Inr p)"
proof (intro conjI impI)
  assume "navMenu p \<noteq> None \<and> navToggle p \<noteq> None"
  then obtain m t where "navMenu p = Some m" "navToggle p = Some t" by auto
  then obtain p' where p': "closeMobileMenu p = Inr p'" "menu_closed p'"
    using closeMobileMenu_makes_closed by blast
  then show "\<exists>p'. closeMobileMenu p = Inr p' \<and> menu_closed p' \<and> closeMobileMenu p' = Inr p'"
    using closeMobileMenu_closed_id by blast
next
  assume "menu_closed p"
  then show "closeMobileMenu p = Inr p" by (rule closeMobileMenu_closed_id)
next
  assume "\<not> menu_has_open p"
  then show "document_keydown ''Escape'' p = Inr p" by (rule escape_when_not_open)
next
  assume "\<not> menu_has_open p"
  then show "(case document_keydown ''Escape'' p of
             Inl e \<Rightarrow> Inl e
           | Inr p1 \<Rightarrow> document_keydown ''Escape'' p1) = Inr p"
    by (simp add: escape_when_not_open)
qed

theorem closeMobileMenu_idempotent_witness:
  "menu_closed menu_page_example \<and> \<not> menu_has_open menu_page_example
   \<and> closeMobileMenu menu_page_example = Inr menu_page_example
   \<and> document_keydown ''Escape'' menu_page_example = Inr menu_page_example"
proof -
  have c: "menu_closed menu_page_example"
    by (simp add: menu_closed_def menu_page_example_def classList_contains_def)
  have o: "\<not> menu_has_open menu_page_example"
    by (simp add: menu_has_open_def menu_page_example_def classList_contains_def)
  show ?thesis
    using c o closeMobileMenu_idempotent [of menu_page_example] by simp
qed

subsection \<open>Active navigation link\<close>

lemma querySelector_index_less:
  "querySelector_index P xs = Some i \<Longrightarrow> i < length xs"
  by (induction xs arbitrary: i) (auto split: if_splits)

lemma querySelector_index_map:
  "querySelector_index P (map f xs) = querySelector_index (\<lambda>x. P (f x)) xs"
  by (induction xs) auto

lemma navLink_of_href:
  "navLink_of sid links = querySelector_index (\<lambda>h. h = CHR ''#'' # sid) (map href links)"
  by (simp add: navLink_of_def querySelector_index_map)

lemma remove_add_active:
  "classList_remove c (classList_add c x) = classList_remove c x"
  by (simp add: classList_remove_def classList_add_def)

lemma remove_remove_active:
  "classList_remove c (classList_remove c x) = classList_remove c x"
  by (simp add: classList_remove_def)

lemma length_set_active: "length (set_active i links) = length links"
  by (simp add: set_active_def Let_def)

lemma href_set_active: "map href (set_active i links) = map href links"
proof (rule nth_equalityI)
  show "length (map href (set_active i links)) = length (map href links)"
    by (simp add: length_set_active)
next
  fix k
  assume "k < length (map href (set_active i links))"
  then have "k < length links"
    by (simp add: length_set_active)
  then show "map href (set_active i links) ! k = map href links ! k"
    by (cases "k = i")
       (simp_all add: set_active_def Let_def classList_add_def classList_remove_def)
qed

lemma set_active_twice: "set_active i (set_active j links) = set_active i links"
proof -
  have "map (classList_remove ''active'') (set_active j links)
        = map (classList_remove ''active'') links"
  proof (rule nth_equalityI)
    show "length (map (classList_remove ''active'') (set_active j links))
          = length (map (classList_remove ''active'') links)"
      by (simp add: length_set_active)
  next
    fix k
    assume "k < length (map (classList_remove ''active'') (set_active j links))"
    then have k: "k < length links"
      by (simp add: length_set_active)
    then have "classList_remove ''active'' (set_active j links ! k)
               = classList_remove ''active'' (links ! k)"
      by (cases "k = j")
         (simp_all add: set_active_def Let_def remove_add_active remove_remove_active)
    then show "map (classList_remove ''active'') (set_active j links) ! k
               = map (classList_remove ''active'') links ! k"
      using k by (simp add: length_set_active)
  qed
  then show ?thesis
    by (simp add: set_active_def Let_def)
qed

lemma active_set_active:
  assumes "i < length links" "k < length links"
  shows "classList_contains ''active'' (set_active i links ! k) \<longleftrightarrow> k = i"
  using assms
  by (simp add: set_active_def Let_def nth_list_update classList_contains_def
      classList_add_def classList_remove_def)

lemma foldl_sections:
  "foldl (updateActiveLink_section h y) links secs =
     (let M = filter (\<lambda>s. navLink_of (section_id s) links \<noteq> None \<and> in_span h y s) secs
      in if M = [] then links
         else set_active (the (navLink_of (section_id (last M)) links)) links)"
proof (induction secs rule: rev_induct)
  case Nil
  then show ?case by simp
next
  case (snoc x xs)
  let ?P = "\<lambda>s. navLink_of (section_id s) links \<noteq> None \<and> in_span h y s"
  let ?R = "foldl (updateActiveLink_section h y) links xs"
  have hr: "map href ?R = map href links"
    by (subst snoc.IH) (simp add: href_set_active Let_def)
  have nl: "navLink_of (section_id x) ?R = navLink_of (section_id x) links"
    by (simp add: navLink_of_href hr)
  have sa: "set_active i ?R = set_active i links" for i
    by (subst snoc.IH) (simp add: set_active_twice Let_def)
  have step: "foldl (updateActiveLink_section h y) links (xs @ [x])
              = updateActiveLink_section h y ?R x"
    by simp
  show ?case
  proof (cases "?P x")
    case True
    then obtain i where i: "navLink_of (section_id x) links = Some i" by auto
    have "updateActiveLink_section h y ?R x = set_active i links"
      using True i nl sa by (simp add: updateActiveLink_section_def)
    moreover have "filter ?P (xs @ [x]) = filter ?P xs @ [x]"
      using True by simp
    ultimately show ?thesis
      using i by (simp only: step Let_def last_snoc snoc_eq_iff_butlast option.sel) simp
  next
    case False
    have f: "filter ?P (xs @ [x]) = filter ?P xs"
      using False by simp
    have "updateActiveLink_section h y ?R x = ?R"
      using False nl by (auto simp: updateActiveLink_section_def split: option.splits)
    then have "foldl (updateActiveLink_section h y) links (xs @ [x]) = ?R"
      by (simp only: step)
    also note snoc.IH
    finally show ?thesis
      by (simp only: f)
  qed
qed

text \<open>
  Claim C1, as the code has it. On a page with a header, \<^verbatim>\<open>updateActiveLink\<close>
  at a scroll offset does one of two things. When at least one section that has a
  navigation link contains the offset in its span (from the section's top minus the
  header's height minus 100 pixels, exclusive, to that bound plus the section's height,
  inclusive), exactly one navigation link is active afterwards: the link of the last such
  section in document order. When no such section exists the links are returned as they
  were, so whatever was active stays active.
\<close>

theorem updateActiveLink_active:
  assumes "header_offsetHeight p = Some h"
  shows "\<exists>ls. updateActiveLink p y = Inr ls \<and> length ls = length (navLinks p) \<and>
           (if matching_sections p h y = [] then ls = navLinks p
            else \<exists>i<length ls.
                   navLink_of (section_id (last (matching_sections p h y))) (navLinks p) = Some i
                   \<and> (\<forall>k<length ls. classList_contains ''active'' (ls ! k) \<longleftrightarrow> k = i))"
proof -
  let ?M = "matching_sections p h y"
  let ?ls = "foldl (updateActiveLink_section h y) (navLinks p) (sections p)"
  have run: "updateActiveLink p y = Inr ?ls"
    using assms by (simp add: updateActiveLink_def split: list.splits)
  have fold: "?ls = (if ?M = [] then navLinks p
                     else set_active (the (navLink_of (section_id (last ?M)) (navLinks p))) (navLinks p))"
    by (simp add: foldl_sections matching_sections_def Let_def)
  show ?thesis
  proof (cases "?M = []")
    case True
    then show ?thesis using run fold by simp
  next
    case False
    then have "last ?M \<in> set ?M" by simp
    then have "navLink_of (section_id (last ?M)) (navLinks p) \<noteq> None"
      by (simp add: matching_sections_def)
    then obtain i where i: "navLink_of (section_id (last ?M)) (navLinks p) = Some i"
      by auto
    then have il: "i < length (navLinks p)"
      by (simp add: navLink_of_def querySelector_index_less)
    have ls: "?ls = set_active i (navLinks p)"
      using False fold i by simp
    have "\<forall>k<length ?ls. classList_contains ''active'' (?ls ! k) \<longleftrightarrow> k = i"
      using il by (simp add: ls length_set_active active_set_active)
    then show ?thesis
      using run False i il by (simp add: ls length_set_active)
  qed
qed

theorem updateActiveLink_active_witness:
  "header_offsetHeight nav_page_example = Some 80
   \<and> last (matching_sections nav_page_example 80 1400)
       = \<lparr>section_id = ''services'', offsetTop = 1500, offsetHeight = 500\<rparr>
   \<and> map_sum id active_links (updateActiveLink nav_page_example 1400) = Inr [1]"
proof -
  have h: "header_offsetHeight nav_page_example = Some 80"
    by (simp add: nav_page_example_def)
  have m: "matching_sections nav_page_example 80 1400
           = [\<lparr>section_id = ''services'', offsetTop = 1500, offsetHeight = 500\<rparr>]"
    by (simp add: matching_sections_def nav_page_example_def navLink_of_def link_example_def
        in_span_def)
  have l: "navLink_of ''services'' (navLinks nav_page_example) = Some 1"
    by (simp add: nav_page_example_def navLink_of_def link_example_def)
  have n: "length (navLinks nav_page_example) = 2"
    by (simp add: nav_page_example_def)
  from updateActiveLink_active [OF h, of 1400]
  obtain ls where ls: "updateActiveLink nav_page_example 1400 = Inr ls" "length ls = 2"
    "\<forall>k<2. classList_contains ''active'' (ls ! k) \<longleftrightarrow> k = 1"
    unfolding m using l n by auto
  from ls(3) have "\<not> classList_contains ''active'' (ls ! 0)" "classList_contains ''active'' (ls ! 1)"
    by simp_all
  then have "active_links ls = [1]"
    using ls(2) by (simp add: active_links_def upt_rec)
  then show ?thesis
    using h m ls(1) by simp
qed

text \<open>
  At the offset 0 the example page has no section whose span contains the offset, in
  either reading of the span, and the link that was active before is active after the
  update.
\<close>

theorem updateActiveLink_stale_counterexample:
  "filter (in_span 80 0) (sections nav_page_example) = []
   \<and> filter (in_span_spec 80 0) (sections nav_page_example) = []
   \<and> header_offsetHeight nav_page_example = Some 80
   \<and> map_sum id active_links (updateActiveLink nav_page_example 0) = Inr [0]"
  by (simp add: nav_page_example_def in_span_def in_span_spec_def updateActiveLink_def
      updateActiveLink_section_def navLink_of_def link_example_def active_links_def
      classList_contains_def upt_rec)

subsection \<open>Scroll reveal\<close>

lemma add_visible_twice:
  "classList_add c (classList_add c x) = classList_add c x"
  by (simp add: classList_add_def)

lemma reveal_run_concat: "reveal_run s bs = foldl reveal_entry s (concat bs)"
  unfolding reveal_run_def
  by (induction bs arbitrary: s) (simp_all add: reveal_callback_def)

lemma reveal_entry_els:
  "els (reveal_entry s x) e =
     (if isIntersecting x \<and> e = entry_target x then classList_add ''visible'' (els s e) else els s e)"
  by (simp add: reveal_entry_def)

lemma reveal_entry_observed:
  "observed (reveal_entry s x) = (if isIntersecting x then observed s - {entry_target x} else observed s)"
  by (simp add: reveal_entry_def)

lemma reveal_entries_els:
  "els (foldl reveal_entry s es) e =
     (if e \<in> set (map entry_target (filter isIntersecting es))
      then classList_add ''visible'' (els s e) else els s e)"
proof (induction es rule: rev_induct)
  case Nil
  then show ?case by simp
next
  case (snoc x xs)
  let ?s = "foldl reveal_entry s xs"
  have "els (foldl reveal_entry s (xs @ [x])) e = els (reveal_entry ?s x) e"
    by simp
  also have "\<dots> = (if isIntersecting x \<and> e = entry_target x
                     then classList_add ''visible'' (els ?s e) else els ?s e)"
    by (rule reveal_entry_els)
  also have "\<dots> = (if e \<in> set (map entry_target (filter isIntersecting (xs @ [x])))
                     then classList_add ''visible'' (els s e) else els s e)"
    unfolding snoc.IH by (simp add: add_visible_twice)
  finally show ?case .
qed

lemma reveal_entries_observed:
  "observed (foldl reveal_entry s es) = observed s - set (map entry_target (filter isIntersecting es))"
proof (induction es rule: rev_induct)
  case Nil
  then show ?case by simp
next
  case (snoc x xs)
  let ?s = "foldl reveal_entry s xs"
  have "observed (foldl reveal_entry s (xs @ [x])) = observed (reveal_entry ?s x)"
    by simp
  also have "\<dots> = (if isIntersecting x then observed ?s - {entry_target x} else observed ?s)"
    by (rule reveal_entry_observed)
  also have "\<dots> = observed s - set (map entry_target (filter isIntersecting (xs @ [x])))"
    unfolding snoc.IH by auto
  finally show ?case .
qed

lemma mark_reveal_classes:
  "classList (mark_reveal d x e) =
     (if e = x then insert ''reveal'' (classList (d e)) else classList (d e))"
  by (simp add: mark_reveal_def classList_add_def)

lemma init_reveal_classes:
  "classList (foldl mark_reveal doc rs e) =
     (if e \<in> set rs then insert ''reveal'' (classList (doc e)) else classList (doc e))"
proof (induction rs rule: rev_induct)
  case Nil
  then show ?case by simp
next
  case (snoc x xs)
  have "classList (foldl mark_reveal doc (xs @ [x]) e)
        = classList (mark_reveal (foldl mark_reveal doc xs) x e)"
    by simp
  also have "\<dots> = (if e = x then insert ''reveal'' (classList (foldl mark_reveal doc xs e))
                     else classList (foldl mark_reveal doc xs e))"
    by (rule mark_reveal_classes)
  also have "\<dots> = (if e \<in> set (xs @ [x]) then insert ''reveal'' (classList (doc e))
                     else classList (doc e))"
    unfolding snoc.IH by auto
  finally show ?case .
qed

lemma init_reveal_observed: "foldl observe A rs = A \<union> set rs"
proof (induction rs arbitrary: A)
  case Nil
  then show ?case by simp
next
  case (Cons r rs)
  have "foldl observe A (r # rs) = foldl observe (insert r A) rs"
    by (simp add: observe_def)
  then show ?case
    by (simp add: Cons.IH)
qed

lemma initScrollReveal_visible:
  "classList_contains ''visible'' (els (initScrollReveal rs doc) e)
     \<longleftrightarrow> classList_contains ''visible'' (doc e)"
  by (simp add: initScrollReveal_def classList_contains_def init_reveal_classes)

lemma reveal_run_visible:
  "classList_contains ''visible'' (els (reveal_run s bs) e)
     \<longleftrightarrow> classList_contains ''visible'' (els s e) \<or> e \<in> triggered bs"
  by (simp add: reveal_run_concat reveal_entries_els triggered_def classList_contains_def
      classList_add_def)

lemma reveal_run_observed: "observed (reveal_run s bs) = observed s - triggered bs"
  by (simp add: reveal_run_concat reveal_entries_observed triggered_def)

lemma triggered_append: "triggered (bs @ bs') = triggered bs \<union> triggered bs'"
  by (simp add: triggered_def)

lemma reveal_entry_after_trigger:
  assumes "e \<in> triggered bs"
  shows "reveal_entry (reveal_run s bs) \<lparr>entry_target = e, isIntersecting = b\<rparr> = reveal_run s bs"
proof -
  let ?s = "reveal_run s bs"
  have v: "''visible'' \<in> classList (els ?s e)"
    using assms reveal_run_visible [of s bs e] by (simp add: classList_contains_def)
  have o: "e \<notin> observed ?s"
    using assms by (simp add: reveal_run_observed)
  have "classList_add ''visible'' (els ?s e) = els ?s e"
    using v by (simp add: classList_add_def insert_absorb)
  then show ?thesis
    using o by (simp add: reveal_entry_def)
qed

text \<open>
  Claim C4. The reveal observer is created with a threshold of one tenth and a root
  margin that deflates the viewport's bottom edge by 50 pixels. After
  \<^verbatim>\<open>initScrollReveal\<close> and any sequence of callback invocations, with any
  entries: an element carries \<^verbatim>\<open>visible\<close> exactly if it carried it in the
  markup or one of the delivered entries reported it as intersecting, so the class appears
  at the element's first intersecting entry; the observed elements are the reveal elements
  without those that have been reported intersecting, so a revealed element is no longer
  observed; the class, once present, is present after every further callback; and an
  entry for an element that has already been revealed, whatever it reports, leaves the
  page exactly as it is, so the element changes state at most once.
\<close>

theorem scroll_reveal_once:
  "threshold reveal_options = 1 / 10 \<and> rootMargin reveal_options = ''0px 0px -50px 0px''
   \<and> (classList_contains ''visible'' (els (reveal_run (initScrollReveal rs doc) bs) e)
        \<longleftrightarrow> classList_contains ''visible'' (doc e) \<or> e \<in> triggered bs)
   \<and> observed (reveal_run (initScrollReveal rs doc) bs) = set rs - triggered bs
   \<and> (classList_contains ''visible'' (els (reveal_run (initScrollReveal rs doc) bs) e)
        \<longrightarrow> classList_contains ''visible'' (els (reveal_run (initScrollReveal rs doc) (bs @ bs')) e))
   \<and> (e \<in> triggered bs
        \<longrightarrow> reveal_entry (reveal_run (initScrollReveal rs doc) bs) \<lparr>entry_target = e, isIntersecting = b\<rparr>
            = reveal_run (initScrollReveal rs doc) bs)"
proof (intro conjI impI)
  show "threshold reveal_options = 1 / 10"
    by (simp add: reveal_options_def config_def)
  show "rootMargin reveal_options = ''0px 0px -50px 0px''"
    by (simp add: reveal_options_def)
  show "classList_contains ''visible'' (els (reveal_run (initScrollReveal rs doc) bs) e)
        \<longleftrightarrow> classList_contains ''visible'' (doc e) \<or> e \<in> triggered bs"
    by (simp add: reveal_run_visible initScrollReveal_visible)
  show "observed (reveal_run (initScrollReveal rs doc) bs) = set rs - triggered bs"
    by (simp add: reveal_run_observed initScrollReveal_def init_reveal_observed)
next
  assume "classList_contains ''visible'' (els (reveal_run (initScrollReveal rs doc) bs) e)"
  then show "classList_contains ''visible'' (els (reveal_run (initScrollReveal rs doc) (bs @ bs')) e)"
    by (auto simp: reveal_run_visible triggered_append)
next
  assume "e \<in> triggered bs"
  then show "reveal_entry (reveal_run (initScrollReveal rs doc) bs) \<lparr>entry_target = e, isIntersecting = b\<rparr>
            = reveal_run (initScrollReveal rs doc) bs"
    by (rule reveal_entry_after_trigger)
qed

theorem scroll_reveal_once_witness:
  "classList_contains ''visible''
     (els (reveal_run (initScrollReveal [3, 7] (\<lambda>_. blank_element))
            [[\<lparr>entry_target = 7, isIntersecting = False\<rparr>, \<lparr>entry_target = 3, isIntersecting = True\<rparr>]]) 3)
   \<and> classList_contains ''visible''
     (els (reveal_run (initScrollReveal [3, 7] (\<lambda>_. blank_element))
            ([[\<lparr>entry_target = 7, isIntersecting = False\<rparr>, \<lparr>entry_target = 3, isIntersecting = True\<rparr>]]
              @ [[\<lparr>entry_target = 3, isIntersecting = False\<rparr>]])) 3)
   \<and> observed (reveal_run (initScrollReveal [3, 7] (\<lambda>_. blank_element))
            [[\<lparr>entry_target = 7, isIntersecting = False\<rparr>, \<lparr>entry_target = 3, isIntersecting = True\<rparr>]]) = {7}"
proof -
  have t: "triggered [[\<lparr>entry_target = 7, isIntersecting = False\<rparr>, \<lparr>entry_target = 3, isIntersecting = True\<rparr>]] = {3}"
    by (simp add: triggered_def)
  have d: "{3, 7} - {3} = {7::nat}" by auto
  show ?thesis
    using scroll_reveal_once [of "[3, 7]" "\<lambda>_. blank_element"
        "[[\<lparr>entry_target = 7, isIntersecting = False\<rparr>, \<lparr>entry_target = 3, isIntersecting = True\<rparr>]]" 3
        "[[\<lparr>entry_target = 3, isIntersecting = False\<rparr>]]" False]
    unfolding t by (simp add: d)
qed

subsection \<open>Debounce\<close>

lemma advance_none: "next_due T st = None \<Longrightarrow> advance T st = st"
  by (subst advance.simps) simp

lemma advance_quiet: "quiet st \<Longrightarrow> advance T st = st"
  by (rule advance_none) (simp add: quiet_def next_due_def)

lemma advance_pending_early:
  assumes "pending st d a" "T < d"
  shows "advance T st = st"
  using assms by (intro advance_none) (auto simp: pending_def next_due_def)

lemma advance_pending_due:
  assumes "pending st d a" "d \<le> T"
  shows "invocations (advance T st) = invocations st @ [(d, a)] \<and> quiet (advance T st)"
proof -
  from assms(1) obtain h where h: "timers st = [\<lparr>timer_id = h, due = d, timer_args = a\<rparr>]"
    "timeout st = Some h" "h < next_id st"
    by (auto simp: pending_def)
  let ?u = "\<lparr>timer_id = h, due = d, timer_args = a\<rparr>"
  have nd: "next_due T st = Some ?u"
    using h assms(2) by (simp add: next_due_def)
  have f: "timers (fire ?u st) = []" "invocations (fire ?u st) = invocations st @ [(d, a)]"
    "timeout (fire ?u st) = Some h" "next_id (fire ?u st) = next_id st"
    using h by (simp_all add: fire_def later_def clearTimeout_def Let_def)
  have q: "quiet (fire ?u st)"
    using f h(3) by (simp add: quiet_def)
  have "advance T st = advance T (fire ?u st)"
    by (subst advance.simps) (simp add: nd)
  also have "\<dots> = fire ?u st"
    using q by (rule advance_quiet)
  finally show ?thesis
    using f q by simp
qed

lemma executedFunction_pending:
  assumes "quiet st \<or> pending st d a" "0 \<le> w"
  shows "pending (executedFunction w t a' st) (t + w) a'
         \<and> invocations (executedFunction w t a' st) = invocations st"
  using assms
  by (auto simp: quiet_def pending_def executedFunction_def setTimeout_def clearTimeout_def
      split: option.splits)

lemma debounce_run_pending:
  assumes "pending st d a" "chain w d cs" "0 \<le> w"
  shows "pending (debounce_run w cs st) (if cs = [] then d else fst (last cs) + w)
           (if cs = [] then a else snd (last cs))
         \<and> invocations (debounce_run w cs st) = invocations st"
  using assms
proof (induction cs arbitrary: st d a)
  case Nil
  then show ?case by simp
next
  case (Cons c cs)
  obtain t a' where c: "c = (t, a')" by (cases c)
  from Cons.prems c have t: "t < d" and ch: "chain w (t + w) cs" by simp_all
  let ?st = "executedFunction w t a' (advance t st)"
  have adv: "advance t st = st"
    using Cons.prems(1) t by (rule advance_pending_early)
  have p: "pending ?st (t + w) a'" and i: "invocations ?st = invocations st"
    using executedFunction_pending [of st d a w t a'] Cons.prems(1,3) by (simp_all add: adv)
  from Cons.IH [OF p ch Cons.prems(3)] i show ?case
    by (cases "cs = []") (simp_all add: c)
qed

lemma burst_chain: "burst w ((t, a) # cs) \<Longrightarrow> chain w (t + w) cs"
proof (induction cs arbitrary: t a)
  case Nil
  then show ?case by simp
next
  case (Cons c cs)
  obtain t' a' where c: "c = (t', a')" by (cases c)
  from Cons.prems c have "t' < t + w" "burst w ((t', a') # cs)" by simp_all
  with Cons.IH show ?case by (simp add: c)
qed

text \<open>
  Claim C3. For every wait time \<open>w\<close> (not negative) and every handler, whose
  invocations the model records: a burst of calls of the debounced wrapper, each less
  than \<open>w\<close> after the one before, that starts while no timer of the wrapper is pending,
  leaves exactly one pending timer, which holds the arguments of the last call and is due
  \<open>w\<close> after it: every earlier timer has been cancelled. No invocation of the handler
  happens during the burst; with no further call, none has happened at any time before
  that due time, and from that time on exactly one has: at \<open>w\<close> after the last call,
  with the last call's arguments.
\<close>

theorem debounce_burst:
  assumes "0 \<le> w" and "quiet st" and "burst w (c # cs)"
  shows "map (\<lambda>u. (due u, timer_args u)) (timers (debounce_run w (c # cs) st))
           = [(fst (last (c # cs)) + w, snd (last (c # cs)))]
         \<and> invocations (debounce_run w (c # cs) st) = invocations st
         \<and> invocations (advance T (debounce_run w (c # cs) st))
           = (if fst (last (c # cs)) + w \<le> T
              then invocations st @ [(fst (last (c # cs)) + w, snd (last (c # cs)))]
              else invocations st)"
proof -
  obtain t a where c: "c = (t, a)" by (cases c)
  let ?st = "executedFunction w t a (advance t st)"
  let ?d = "fst (last (c # cs)) + w" and ?a = "snd (last (c # cs))"
  have adv: "advance t st = st"
    using assms(2) by (rule advance_quiet)
  have p: "pending ?st (t + w) a" and i: "invocations ?st = invocations st"
    using executedFunction_pending [of st 0 a w t a] assms(1,2) by (simp_all add: adv)
  have ch: "chain w (t + w) cs"
    using assms(3) c by (simp add: burst_chain)
  from debounce_run_pending [OF p ch assms(1)] i
  have P: "pending (debounce_run w (c # cs) st) ?d ?a"
    and I: "invocations (debounce_run w (c # cs) st) = invocations st"
    by (cases "cs = []"; simp add: c)+
  from P have tm: "map (\<lambda>u. (due u, timer_args u)) (timers (debounce_run w (c # cs) st)) = [(?d, ?a)]"
    by (auto simp: pending_def)
  have "invocations (advance T (debounce_run w (c # cs) st))
        = (if ?d \<le> T then invocations st @ [(?d, ?a)] else invocations st)"
  proof (cases "?d \<le> T")
    case True
    then show ?thesis
      using advance_pending_due [OF P, of T] I by simp
  next
    case False
    then have "T < ?d" by simp
    then show ?thesis
      using advance_pending_early [OF P, of T] I False by simp
  qed
  with tm I show ?thesis by simp
qed

theorem debounce_burst_witness:
  "(0::real) \<le> 50 \<and> quiet (debounce :: string debounced)
   \<and> burst 50 [(0, ''a''), (10, ''b''), (30, ''c'')]
   \<and> invocations (advance 79 (debounce_run 50 [(0, ''a''), (10, ''b''), (30, ''c'')] debounce)) = []
   \<and> invocations (advance 80 (debounce_run 50 [(0, ''a''), (10, ''b''), (30, ''c'')] debounce))
       = [(80, ''c'')]"
proof -
  have w: "(0::real) \<le> 50" by simp
  have q: "quiet (debounce :: string debounced)"
    by (simp add: quiet_def debounce_def)
  have b: "burst 50 [(0, ''a''), (10, ''b''), (30, ''c'')]" by simp
  have i: "invocations (debounce :: string debounced) = []"
    by (simp add: debounce_def)
  show ?thesis
    using w q b debounce_burst [OF w q b, of 79] debounce_burst [OF w q b, of 80]
    by (simp add: i)
qed

subsection \<open>Statistics counter\<close>

lemma animateCount_writes_eq:
  "animateCount_writes pf target s ts =
     map (current_at pf target s)
       (takeWhile (\<lambda>t. js_lt pf (progress_at pf s t) (Val (op_number pf 1))) ts)
     @ (case dropWhile (\<lambda>t. js_lt pf (progress_at pf s t) (Val (op_number pf 1))) ts of
          [] \<Rightarrow> []
        | t # _ \<Rightarrow> [current_at pf target s t, target])"
  by (induction ts) (simp_all add: updateCount_def Let_def)

lemma write_text_text: "textContent (write_text pf el v) = ToString pf v"
  by (simp add: write_text_def)

lemma textContent_writes:
  "textContent (foldl (write_text pf) el ws)
     = (if ws = [] then textContent el else ToString pf (last ws))"
  by (induction ws rule: rev_induct) (simp_all add: write_text_text)

lemma animateCount_text:
  "textContent (animateCount pf el target s ts)
     = (if animateCount_writes pf target s ts = [] then textContent el
        else ToString pf (last (animateCount_writes pf target s ts)))"
  unfolding animateCount_def by (rule textContent_writes)

lemma reaches_end:
  assumes "\<exists>t\<in>set ts. \<not> P t"
  shows "\<exists>t rest. dropWhile P ts = t # rest"
proof -
  from assms obtain u where "u \<in> set ts" "\<not> P u" by auto
  then have "dropWhile P ts \<noteq> []"
    by (auto simp: dropWhile_eq_Nil_conv)
  then show ?thesis
    by (cases "dropWhile P ts") auto
qed

text \<open>
  Claim C5. On every engine and for every target, the number of an integer or any
  other: the frame whose progress is not below 1 assigns the interpolated value, then
  the target itself, and requests no further frame. When a frame of the animation
  reaches that progress, the last value assigned is the target, and the element's text
  is the string of the target, whatever the arithmetic of the interpolation yielded.
\<close>

theorem animateCount_final_exact:
  "(\<not> js_lt pf (progress_at pf startTime t) (Val (op_number pf 1)) \<longrightarrow>
      updateCount pf target startTime t = ([current_at pf target startTime t, target], False))
   \<and> ((\<exists>t\<in>set ts. \<not> js_lt pf (progress_at pf startTime t) (Val (op_number pf 1))) \<longrightarrow>
        animateCount_writes pf target startTime ts \<noteq> []
        \<and> last (animateCount_writes pf target startTime ts) = target
        \<and> textContent (animateCount pf el target startTime ts) = ToString pf target)"
proof (intro conjI impI)
  assume "\<not> js_lt pf (progress_at pf startTime t) (Val (op_number pf 1))"
  then show "updateCount pf target startTime t = ([current_at pf target startTime t, target], False)"
    by (simp add: updateCount_def Let_def)
next
  assume "\<exists>t\<in>set ts. \<not> js_lt pf (progress_at pf startTime t) (Val (op_number pf 1))"
  then obtain u rest where
    d: "dropWhile (\<lambda>t. js_lt pf (progress_at pf startTime t) (Val (op_number pf 1))) ts = u # rest"
    using reaches_end [of ts "\<lambda>t. js_lt pf (progress_at pf startTime t) (Val (op_number pf 1))"]
    by blast
  have w: "animateCount_writes pf target startTime ts \<noteq> []"
    "last (animateCount_writes pf target startTime ts) = target"
    unfolding animateCount_writes_eq d by simp_all
  show "animateCount_writes pf target startTime ts \<noteq> []" by (rule w(1))
  show "last (animateCount_writes pf target startTime ts) = target" by (rule w(2))
  show "textContent (animateCount pf el target startTime ts) = ToString pf target"
    using w by (simp add: animateCount_text)
qed

text \<open>
  On the example engine the interpolated value of the last frame is 1237 for the
  target 1250, and the text ends as 1250.
\<close>

lemmas example_platform_ops =
  example_platform_def progress_at_def easeProgress_at_def current_at_def updateCount_def
  js_sub_def js_add_def js_mul_def js_div_def Math_min_def Math_pow_def Math_floor_def js_lt_def
  lift2_def exact_sub_def exact_add_def exact_mul_def exact_div_def inexact_pow_def
  floor_real_def config_def Let_def

lemma example_writes:
  "animateCount_writes example_platform (Val 1250) 0 [16, 2000] = [Val 17, Val 1237, Val 1250]"
  by (simp add: example_platform_ops power3_eq_cube)

theorem animateCount_final_exact_witness:
  "\<not> js_lt example_platform (progress_at example_platform 0 2000) (Val (op_number example_platform 1))
   \<and> current_at example_platform (Val 1250) 0 2000 = Val 1237
   \<and> animateCount_writes example_platform (Val 1250) 0 [16, 2000] = [Val 17, Val 1237, Val 1250]
   \<and> textContent (animateCount example_platform blank_element (Val 1250) 0 [16, 2000]) = ''1250''"
proof -
  have p: "\<not> js_lt example_platform (progress_at example_platform 0 2000)
              (Val (op_number example_platform 1))"
    by (simp add: example_platform_ops)
  then have "\<exists>t\<in>set [16, 2000]. \<not> js_lt example_platform (progress_at example_platform 0 t)
              (Val (op_number example_platform 1))"
    by simp
  with animateCount_final_exact [of example_platform 0 2000 "Val 1250" "[16, 2000]" blank_element]
  have "textContent (animateCount example_platform blank_element (Val 1250) 0 [16, 2000])
        = ToString example_platform (Val 1250)"
    by blast
  moreover have "ToString example_platform (Val 1250) = ''1250''"
    by (simp add: ToString_def example_platform_def floor_string_def int_string_def decimal.simps)
  moreover have "current_at example_platform (Val 1250) 0 2000 = Val 1237"
    by (simp add: example_platform_ops power3_eq_cube)
  ultimately show ?thesis
    using p example_writes by simp
qed

text \<open>An animation towards \<^verbatim>\<open>NaN\<close>.\<close>

lemma current_at_NaN: "current_at pf NaN s t = NaN"
  by (simp add: current_at_def js_sub_def js_mul_def js_add_def Math_floor_def lift2_def Let_def
      split: number.splits)

lemma updateCount_NaN:
  "updateCount pf NaN s t = ([NaN], True) \<or> updateCount pf NaN s t = ([NaN, NaN], False)"
  by (simp add: updateCount_def current_at_NaN Let_def)

lemma write_text_data_count: "data_count (write_text pf e v) = data_count e"
  by (simp add: write_text_def)

lemma writes_data_count: "data_count (foldl (write_text pf) e ws) = data_count e"
  by (induction ws arbitrary: e) (simp_all add: write_text_data_count)

text \<open>One callback of one animation.\<close>

lemma updateCount_run_els:
  "stat_els (updateCount_run pf t s a) n =
     (if n = anim_element a
      then foldl (write_text pf) (stat_els s n) (fst (updateCount pf (anim_target a) (anim_start a) t))
      else stat_els s n)"
  by (simp add: updateCount_run_def split: prod.splits)

lemma updateCount_run_animations:
  "animations (updateCount_run pf t s a) =
     animations s @ (if snd (updateCount pf (anim_target a) (anim_start a) t) then [a] else [])"
  by (simp add: updateCount_run_def split: prod.splits)

lemma updateCount_run_data_count:
  "data_count (stat_els (updateCount_run pf t s a) n) = data_count (stat_els s n)"
  by (simp add: updateCount_run_els writes_data_count)

lemma updateCount_run_text:
  "textContent (stat_els (updateCount_run pf t s a) n) =
     (if n = anim_element a
      then ToString pf (last (fst (updateCount pf (anim_target a) (anim_start a) t)))
      else textContent (stat_els s n))"
  by (simp add: updateCount_run_els textContent_writes updateCount_def Let_def)

lemma updateCount_run_text_NaN:
  assumes "anim_element a = el" "anim_target a = NaN"
  shows "textContent (stat_els (updateCount_run pf t s a) el) = ''NaN''"
proof -
  have "last (fst (updateCount pf NaN (anim_start a) t)) = NaN"
    using updateCount_NaN [of pf "anim_start a" t] by auto
  then show ?thesis
    using assms by (simp add: updateCount_run_text ToString_def)
qed

text \<open>The callbacks of a frame.\<close>

lemma frame_callbacks:
  "set (animations (foldl (updateCount_run pf t) s as)) \<subseteq> set (animations s) \<union> set as
   \<and> (\<forall>n. data_count (stat_els (foldl (updateCount_run pf t) s as) n) = data_count (stat_els s n))
   \<and> ((\<forall>a\<in>set as. anim_element a = el \<longrightarrow> anim_target a = NaN) \<longrightarrow>
        textContent (stat_els (foldl (updateCount_run pf t) s as) el)
          = (if \<exists>a\<in>set as. anim_element a = el then ''NaN'' else textContent (stat_els s el)))"
proof (induction as rule: rev_induct)
  case Nil
  then show ?case by simp
next
  case (snoc a as)
  let ?s = "foldl (updateCount_run pf t) s as"
  have step: "foldl (updateCount_run pf t) s (as @ [a]) = updateCount_run pf t ?s a"
    by simp
  have 1: "set (animations (updateCount_run pf t ?s a)) \<subseteq> set (animations s) \<union> set (as @ [a])"
    using snoc.IH by (auto simp: updateCount_run_animations)
  have 2: "\<forall>n. data_count (stat_els (updateCount_run pf t ?s a) n) = data_count (stat_els s n)"
    using snoc.IH by (simp add: updateCount_run_data_count)
  have 3: "textContent (stat_els (updateCount_run pf t ?s a) el)
          = (if \<exists>b\<in>set (as @ [a]). anim_element b = el then ''NaN'' else textContent (stat_els s el))"
    if all: "\<forall>b\<in>set (as @ [a]). anim_element b = el \<longrightarrow> anim_target b = NaN"
  proof (cases "anim_element a = el")
    case True
    with all have "anim_target a = NaN" by simp
    with True show ?thesis
      by (simp add: updateCount_run_text_NaN)
  next
    case False
    from all have "\<forall>b\<in>set as. anim_element b = el \<longrightarrow> anim_target b = NaN" by simp
    with snoc.IH have "textContent (stat_els ?s el)
          = (if \<exists>b\<in>set as. anim_element b = el then ''NaN'' else textContent (stat_els s el))"
      by blast
    with False show ?thesis
      by (simp add: updateCount_run_text)
  qed
  show ?case
    unfolding step using 1 2 3 by blast
qed

lemma animation_frame_props:
  "set (animations (animation_frame pf t s)) \<subseteq> set (animations s)
   \<and> (\<forall>n. data_count (stat_els (animation_frame pf t s) n) = data_count (stat_els s n))
   \<and> (el_targets_NaN el s \<longrightarrow>
        textContent (stat_els (animation_frame pf t s) el)
          = (if el_waiting el s then ''NaN'' else textContent (stat_els s el)))"
  using frame_callbacks [of pf t "s\<lparr>animations := []\<rparr>" "animations s" el]
  by (simp add: animation_frame_def el_targets_NaN_def el_waiting_def)

text \<open>The observer's callback.\<close>

lemma stats_entry_els: "stat_els (stats_entry pf now s en) = stat_els s"
  by (simp add: stats_entry_def animateCount_call_def Let_def)

lemma stats_entry_animations:
  "animations (stats_entry pf now s en) =
     animations s @ (if isIntersecting en
                     then [\<lparr>anim_element = entry_target en,
                            anim_target = parseInt pf (data_count (stat_els s (entry_target en))),
                            anim_start = now\<rparr>]
                     else [])"
  by (simp add: stats_entry_def animateCount_call_def Let_def)

lemma stats_entry_observed:
  "stats_observed (stats_entry pf now s en) =
     (if isIntersecting en then stats_observed s - {entry_target en} else stats_observed s)"
  by (simp add: stats_entry_def animateCount_call_def Let_def)

lemma stats_callback_props:
  "stat_els (stats_callback pf now s es) = stat_els s
   \<and> animations (stats_callback pf now s es)
       = animations s @ map (\<lambda>en. \<lparr>anim_element = entry_target en,
                                    anim_target = parseInt pf (data_count (stat_els s (entry_target en))),
                                    anim_start = now\<rparr>) (filter isIntersecting es)
   \<and> stats_observed (stats_callback pf now s es)
       = stats_observed s - set (map entry_target (filter isIntersecting es))"
  unfolding stats_callback_def
proof (induction es rule: rev_induct)
  case Nil
  then show ?case by simp
next
  case (snoc en es)
  let ?s = "foldl (stats_entry pf now) s es"
  have step: "foldl (stats_entry pf now) s (es @ [en]) = stats_entry pf now ?s en"
    by simp
  from snoc.IH have e: "stat_els ?s = stat_els s" by simp
  show ?case
    unfolding step using snoc.IH
    by (auto simp: stats_entry_els stats_entry_animations stats_entry_observed e)
qed

lemma counts_to_NaN_step:
  assumes "counts_to_NaN pf el s"
  shows "counts_to_NaN pf el (stats_step pf s ev)"
proof (cases ev)
  case (Intersection now es)
  have p: "stat_els (stats_callback pf now s es) = stat_els s"
    and a: "animations (stats_callback pf now s es)
       = animations s @ map (\<lambda>en. \<lparr>anim_element = entry_target en,
                                    anim_target = parseInt pf (data_count (stat_els s (entry_target en))),
                                    anim_start = now\<rparr>) (filter isIntersecting es)"
    using stats_callback_props [of pf now s es] by simp_all
  show ?thesis
    using assms unfolding Intersection
    by (auto simp: counts_to_NaN_def el_targets_NaN_def p a)
next
  case (Frame t)
  have sub: "set (animations (animation_frame pf t s)) \<subseteq> set (animations s)"
    and dc: "data_count (stat_els (animation_frame pf t s) el) = data_count (stat_els s el)"
    using animation_frame_props [of pf t s el] by simp_all
  show ?thesis
    using assms sub unfolding Frame
    by (auto simp: counts_to_NaN_def el_targets_NaN_def dc)
qed

lemma shows_NaN_step:
  assumes "counts_to_NaN pf el s" "el_waiting el s \<or> shows_NaN el s"
  shows "(el_waiting el (stats_step pf s ev) \<or> shows_NaN el (stats_step pf s ev))
         \<and> (is_frame ev \<or> shows_NaN el s \<longrightarrow> shows_NaN el (stats_step pf s ev))"
proof (cases ev)
  case (Intersection now es)
  have p: "stat_els (stats_callback pf now s es) = stat_els s"
    and a: "animations (stats_callback pf now s es)
       = animations s @ map (\<lambda>en. \<lparr>anim_element = entry_target en,
                                    anim_target = parseInt pf (data_count (stat_els s (entry_target en))),
                                    anim_start = now\<rparr>) (filter isIntersecting es)"
    using stats_callback_props [of pf now s es] by simp_all
  show ?thesis
    using assms(2) unfolding Intersection
    by (auto simp: el_waiting_def shows_NaN_def p a)
next
  case (Frame t)
  from assms(1) have "el_targets_NaN el s" by (simp add: counts_to_NaN_def)
  then have "textContent (stat_els (animation_frame pf t s) el)
          = (if el_waiting el s then ''NaN'' else textContent (stat_els s el))"
    using animation_frame_props [of pf t s el] by simp
  then have "shows_NaN el (animation_frame pf t s)"
    using assms(2) by (auto simp: shows_NaN_def)
  then show ?thesis
    unfolding Frame by simp
qed

lemma stats_run_NaN:
  assumes "counts_to_NaN pf el s" "el_waiting el s \<or> shows_NaN el s"
    and "(\<exists>ev\<in>set evs. is_frame ev) \<or> shows_NaN el s"
  shows "shows_NaN el (stats_run pf s evs)"
  using assms unfolding stats_run_def
proof (induction evs arbitrary: s)
  case Nil
  then show ?case by simp
next
  case (Cons ev evs)
  let ?next = "stats_step pf s ev"
  have 1: "counts_to_NaN pf el ?next"
    using Cons.prems(1) by (rule counts_to_NaN_step)
  have 2: "el_waiting el ?next \<or> shows_NaN el ?next"
    and 3: "is_frame ev \<or> shows_NaN el s \<longrightarrow> shows_NaN el ?next"
    using shows_NaN_step [OF Cons.prems(1,2), of ev] by simp_all
  have "(\<exists>e\<in>set evs. is_frame e) \<or> shows_NaN el ?next"
    using Cons.prems(3) 3 by auto
  from Cons.IH [OF 1 2 this] show ?case by simp
qed

lemma stats_run_counts_to_NaN:
  assumes "counts_to_NaN pf el s"
  shows "counts_to_NaN pf el (stats_run pf s evs)"
  using assms unfolding stats_run_def
  by (induction evs arbitrary: s) (simp_all add: counts_to_NaN_step)

lemma stats_run_append: "stats_run pf s (xs @ ys) = stats_run pf (stats_run pf s xs) ys"
  by (simp add: stats_run_def)

lemma init_observed: "foldl observe A rs = A \<union> set rs"
proof (induction rs arbitrary: A)
  case Nil
  then show ?case by simp
next
  case (Cons r rs)
  have "foldl observe A (r # rs) = foldl observe (insert r A) rs"
    by (simp add: observe_def)
  then show ?case
    by (simp add: Cons.IH)
qed

lemma stats_start_props:
  "stat_els (stats_start ns els0) = els0" "animations (stats_start ns els0) = []"
  "stats_observed (stats_start ns els0) = set ns"
  by (simp_all add: stats_start_def initStatsCounter_def init_observed)

lemma parseInt_null: "parseInt pf None = NaN"
  by (simp add: parseInt_def isWhiteSpace_def isDigit_def)

lemma parseInt_no_digits:
  "takeWhile isDigit (snd (strip_sign (dropWhile isWhiteSpace v))) = [] \<Longrightarrow> parseInt pf (Some v) = NaN"
  by (cases "strip_sign (dropWhile isWhiteSpace v)") (simp add: parseInt_def)

text \<open>
  Claim C10. \<^verbatim>\<open>initStatsCounter\<close> applies no guard to the attribute
  \<^verbatim>\<open>data-count\<close>. The result of \<^verbatim>\<open>parseInt\<close> is \<^verbatim>\<open>NaN\<close> for an absent attribute and for
  a string without a digit after its white space and sign, and every stat element is
  observed. For an element whose attribute parses to \<^verbatim>\<open>NaN\<close>, whatever happened on the
  page before: when the observer's callback receives an intersecting entry for it, an
  animation towards \<^verbatim>\<open>NaN\<close> is started and waits for its frame, the element is no
  longer observed, and after any later events with at least one frame among them the
  element's text is \<^verbatim>\<open>NaN\<close>: every frame of the animation, the final one included,
  leaves that text.
\<close>

theorem stats_counter_NaN:
  "parseInt (pf :: 'v platform) None = NaN
   \<and> (takeWhile isDigit (snd (strip_sign (dropWhile isWhiteSpace v))) = []
        \<longrightarrow> parseInt pf (Some v) = NaN)
   \<and> (el \<in> set ns \<longrightarrow> el \<in> stats_observed (stats_start ns els0 :: 'v stats_page))
   \<and> (parseInt pf (data_count (els0 el)) = NaN
       \<and> (\<exists>en\<in>set entries. entry_target en = el \<and> isIntersecting en)
       \<longrightarrow>
         \<lparr>anim_element = el, anim_target = NaN, anim_start = now\<rparr>
           \<in> set (animations (stats_run pf (stats_start ns els0) (pre @ [Intersection now entries])))
         \<and> el \<notin> stats_observed (stats_run pf (stats_start ns els0) (pre @ [Intersection now entries]))
         \<and> ((\<exists>ev\<in>set post. is_frame ev) \<longrightarrow>
              textContent (stat_els (stats_run pf (stats_start ns els0)
                                      (pre @ [Intersection now entries] @ post)) el) = ''NaN''))"
proof (intro conjI impI)
  show "parseInt pf None = NaN" by (rule parseInt_null)
next
  assume "takeWhile isDigit (snd (strip_sign (dropWhile isWhiteSpace v))) = []"
  then show "parseInt pf (Some v) = NaN" by (rule parseInt_no_digits)
next
  assume "el \<in> set ns"
  then show "el \<in> stats_observed (stats_start ns els0 :: 'v stats_page)"
    by (simp add: stats_start_props)
next
  assume h: "parseInt pf (data_count (els0 el)) = NaN
             \<and> (\<exists>en\<in>set entries. entry_target en = el \<and> isIntersecting en)"
  let ?start = "stats_start ns els0 :: 'v stats_page"
  let ?before = "stats_run pf ?start pre"
  let ?after = "stats_run pf ?start (pre @ [Intersection now entries])"
  have s1: "?after = stats_callback pf now ?before entries"
    by (simp add: stats_run_def)
  have "counts_to_NaN pf el ?start"
    using h by (simp add: counts_to_NaN_def el_targets_NaN_def stats_start_props)
  then have c: "counts_to_NaN pf el ?before"
    by (rule stats_run_counts_to_NaN)
  then have pn: "parseInt pf (data_count (stat_els ?before el)) = NaN"
    by (simp add: counts_to_NaN_def)
  from h obtain en where en: "en \<in> set entries" "entry_target en = el" "isIntersecting en"
    by blast
  have a: "animations ?after
       = animations ?before @ map (\<lambda>en. \<lparr>anim_element = entry_target en,
                                    anim_target = parseInt pf (data_count (stat_els ?before (entry_target en))),
                                    anim_start = now\<rparr>) (filter isIntersecting entries)"
    and o: "stats_observed ?after
       = stats_observed ?before - set (map entry_target (filter isIntersecting entries))"
    unfolding s1 using stats_callback_props [of pf now ?before entries] by simp_all
  have "\<lparr>anim_element = entry_target en,
         anim_target = parseInt pf (data_count (stat_els ?before (entry_target en))),
         anim_start = now\<rparr> \<in> set (animations ?after)"
    unfolding a using en(1,3) by simp
  then have m: "\<lparr>anim_element = el, anim_target = NaN, anim_start = now\<rparr> \<in> set (animations ?after)"
    using en(2) pn by simp
  show "\<lparr>anim_element = el, anim_target = NaN, anim_start = now\<rparr> \<in> set (animations ?after)"
    by (rule m)
  show "el \<notin> stats_observed ?after"
    unfolding o using en by auto
  assume f: "\<exists>ev\<in>set post. is_frame ev"
  have c1: "counts_to_NaN pf el ?after"
    using \<open>counts_to_NaN pf el ?start\<close> by (rule stats_run_counts_to_NaN)
  have w1: "el_waiting el ?after"
    using m by (force simp: el_waiting_def)
  have "shows_NaN el (stats_run pf ?after post)"
    using c1 w1 f by (intro stats_run_NaN) simp_all
  then show "textContent (stat_els (stats_run pf ?start (pre @ [Intersection now entries] @ post)) el)
             = ''NaN''"
    using stats_run_append [of pf ?start "pre @ [Intersection now entries]" post]
    by (simp add: shows_NaN_def)
qed

lemma example_start:
  "(stats_start [5] stats_doc_example :: real stats_page)
     = \<lparr>statNumbers = [5], stat_els = stats_doc_example, stats_observed = {5}, animations = []\<rparr>"
  by (simp add: stats_start_def initStatsCounter_def observe_def)

theorem stats_counter_NaN_witness:
  "parseInt example_platform (Some [0x0061, 0x0062, 0x0063]) = NaN
   \<and> 5 \<in> stats_observed (stats_start [5] stats_doc_example :: real stats_page)
   \<and> parseInt example_platform (data_count (stats_doc_example 5)) = NaN
   \<and> \<lparr>anim_element = 5, anim_target = NaN, anim_start = 40\<rparr>
        \<in> set (animations (stats_run example_platform (stats_start [5] stats_doc_example)
                  [Intersection 40 [\<lparr>entry_target = 5, isIntersecting = True\<rparr>]]))
   \<and> 5 \<notin> stats_observed (stats_run example_platform (stats_start [5] stats_doc_example)
                  [Intersection 40 [\<lparr>entry_target = 5, isIntersecting = True\<rparr>]])
   \<and> textContent (stat_els (stats_run example_platform (stats_start [5] stats_doc_example)
                  [Intersection 40 [\<lparr>entry_target = 5, isIntersecting = True\<rparr>],
                   Frame 56, Frame 2040]) 5) = ''NaN''"
  using stats_counter_NaN [where pf = example_platform and v = "[0x0061, 0x0062, 0x0063]"
      and el = 5 and ns = "[5]" and ?els0.0 = stats_doc_example
      and entries = "[\<lparr>entry_target = 5, isIntersecting = True\<rparr>]" and now = 40
      and pre = "[]" and post = "[Frame 56, Frame 2040]"]
  by (simp add: example_start isDigit_def isWhiteSpace_def stats_doc_example_def
      stat_element_example_def parseInt_def)

subsection \<open>Contact form: the name field\<close>

lemma test_single:
  "test [Atom c lo (Some hi)] s \<longleftrightarrow> lo \<le> length s \<and> length s \<le> hi \<and> list_all c s"
proof
  assume "test [Atom c lo (Some hi)] s"
  then obtain k where k: "lo \<le> k" "k \<le> min hi (length s)" "list_all c (take k s)" "drop k s = []"
    by (auto simp: list_ex_iff)
  from k(4) have "length s \<le> k" by simp
  with k show "lo \<le> length s \<and> length s \<le> hi \<and> list_all c s" by simp
next
  assume a: "lo \<le> length s \<and> length s \<le> hi \<and> list_all c s"
  then have "length s \<in> set [lo ..< Suc (min hi (length s))]" by simp
  moreover have "list_all c (take (length s) s) \<and> test [] (drop (length s) s)" using a by simp
  ultimately show "test [Atom c lo (Some hi)] s"
    unfolding test.simps option.case list_ex_iff by blast
qed

lemma validateField_name_result:
  assumes "name (d f) = ''name''"
  shows "\<exists>d'. validateField errEl d f
              = Inr (2 \<le> length (trim (field_value (d f))) \<and> length (trim (field_value (d f))) \<le> 50
                     \<and> list_all name_class (trim (field_value (d f))), d')"
  using assms
  by (simp add: validateField_def isValid_of_def patterns_def name_pattern_def test_single
      Let_def del: test.simps)

text \<open>
  Claim C2, as the code has it. For the field named \<^verbatim>\<open>name\<close>,
  \<^verbatim>\<open>validateField\<close> raises no error and, on the trimmed value, returns true for
  every string of 2 to 50 code units each of which is a basic Latin letter, a letter of
  the range U+00C0 to U+00FF, or white space; it returns false for every string of fewer
  than 2 or more than 50 code units and for every string with a code unit outside the
  basic Latin letters, the range U+00C0 to U+00FF and white space. (Accented letters
  beyond U+00FF are therefore rejected, and white space other than the space is
  accepted. Nothing is said here of strings with the two signs of the range that are no
  letters, U+00D7 and U+00F7.)
\<close>

theorem validateField_name:
  assumes "name (d f) = ''name''"
  shows "\<exists>b d'. validateField errEl d f = Inr (b, d')
           \<and> (2 \<le> length (trim (field_value (d f))) \<and> length (trim (field_value (d f))) \<le> 50
                \<and> list_all (\<lambda>c. lower c \<or> upper c \<or> latin1_letter c \<or> isWhiteSpace c)
                     (trim (field_value (d f)))
               \<longrightarrow> b)
           \<and> (length (trim (field_value (d f))) < 2 \<or> 50 < length (trim (field_value (d f)))
                \<or> list_ex (\<lambda>c. \<not> (lower c \<or> upper c \<or> latin1_range c \<or> isWhiteSpace c))
                     (trim (field_value (d f)))
               \<longrightarrow> \<not> b)"
proof -
  let ?t = "trim (field_value (d f))"
  let ?b = "2 \<le> length ?t \<and> length ?t \<le> 50 \<and> list_all name_class ?t"
  from validateField_name_result [where d = d and f = f and errEl = errEl] assms
  obtain d' where r: "validateField errEl d f = Inr (?b, d')" by blast
  have up: "list_all (\<lambda>c. lower c \<or> upper c \<or> latin1_letter c \<or> isWhiteSpace c) ?t
            \<Longrightarrow> list_all name_class ?t"
    by (auto simp: list_all_iff name_class_def latin1_letter_def)
  have down: "list_ex (\<lambda>c. \<not> (lower c \<or> upper c \<or> latin1_range c \<or> isWhiteSpace c)) ?t
              \<Longrightarrow> \<not> list_all name_class ?t"
    by (auto simp: list_all_iff list_ex_iff name_class_def)
  show ?thesis
  proof (intro exI [of _ ?b] exI [of _ d'] conjI impI)
    show "validateField errEl d f = Inr (?b, d')" by (rule r)
  next
    assume "2 \<le> length ?t \<and> length ?t \<le> 50
            \<and> list_all (\<lambda>c. lower c \<or> upper c \<or> latin1_letter c \<or> isWhiteSpace c) ?t"
    then show "2 \<le> length ?t" "length ?t \<le> 50" "list_all name_class ?t"
      using up by simp_all
  next
    assume "length ?t < 2 \<or> 50 < length ?t
            \<or> list_ex (\<lambda>c. \<not> (lower c \<or> upper c \<or> latin1_range c \<or> isWhiteSpace c)) ?t"
    then show "\<not> ?b"
      using down by auto
  qed
qed

lemma trim_Jose: "trim [0x0020, 0x004A, 0x006F, 0x0073, 0x00E9, 0x0020] = [0x004A, 0x006F, 0x0073, 0x00E9]"
  by (simp add: trim_def isWhiteSpace_def)

theorem validateField_name_witness:
  "name (name_form [0x0020, 0x004A, 0x006F, 0x0073, 0x00E9, 0x0020] 0) = ''name''
   \<and> map_sum id fst
        (validateField no_error_elements
           (name_form [0x0020, 0x004A, 0x006F, 0x0073, 0x00E9, 0x0020]) 0)
       = Inr True
   \<and> map_sum id fst (validateField no_error_elements (name_form [0x004A]) 0) = Inr False"
proof -
  let ?v = "[0x0020, 0x004A, 0x006F, 0x0073, 0x00E9, 0x0020] :: js_string"
  have n: "name (name_form v 0) = ''name''" for v
    by (simp add: name_form_def name_field_def)
  have fv: "field_value (name_form v 0) = v" for v
    by (simp add: name_form_def name_field_def)
  have ok: "2 \<le> length (trim ?v) \<and> length (trim ?v) \<le> 50
            \<and> list_all (\<lambda>c. lower c \<or> upper c \<or> latin1_letter c \<or> isWhiteSpace c) (trim ?v)"
    unfolding trim_Jose
    by (simp add: lower_def upper_def latin1_letter_def latin1_range_def)
  have short: "length (trim [0x004A :: 16 word]) < 2"
    by (simp add: trim_def isWhiteSpace_def)
  from validateField_name [where d = "name_form ?v" and f = 0 and errEl = no_error_elements] n ok
  have "map_sum id fst (validateField no_error_elements (name_form ?v) 0) = Inr True"
    by (auto simp: fv)
  moreover from validateField_name [where d = "name_form [0x004A]" and f = 0
      and errEl = no_error_elements] n short
  have "map_sum id fst (validateField no_error_elements (name_form [0x004A]) 0) = Inr False"
    by (auto simp: fv)
  ultimately show ?thesis
    using n by simp
qed

text \<open>
  The name of two letters c with caron (U+010D), an accented Latin letter: it is valid in
  the words of the specification and the field does not validate.
\<close>

theorem validateField_name_counterexample:
  "map_sum id fst (validateField no_error_elements (name_form [0x010D, 0x010D]) 0) = Inr False
   \<and> trim [0x010D, 0x010D] = [0x010D, 0x010D]
   \<and> spec_name_valid [0x010D, 0x010D]"
  by (simp add: validateField_def isValid_of_def patterns_def name_pattern_def name_form_def
      name_field_def trim_def isWhiteSpace_def name_class_def lower_def upper_def
      latin1_range_def spec_name_valid_def spec_letter_def latin1_letter_def)

subsection \<open>Contact form: submission\<close>
































end
